theory Spec2Isabelle
  imports Main "HOL-Library.Word"
begin

unbundle bit_operations_syntax

section \<open>The MIDI decoder of midi.h\<close>

subsection \<open>Data model\<close>

text \<open>
  \<open>enum MidiStatus : uint8_t\<close>. The decoder obtains a status by arithmetic on the
  incoming byte (\<open>static_cast<MidiStatus>((byte >> 4) - 8)\<close>) and uses it as an array
  index, so a status is kept as the byte it is, with the enumerators as named constants.
\<close>

type_synonym MidiStatus = "8 word"

definition MidiStatus_NoteOff :: MidiStatus where "MidiStatus_NoteOff = 0"
definition MidiStatus_NoteOn :: MidiStatus where "MidiStatus_NoteOn = 1"
definition MidiStatus_PolyKeyPressure :: MidiStatus where "MidiStatus_PolyKeyPressure = 2"
definition MidiStatus_ControlChange :: MidiStatus where "MidiStatus_ControlChange = 3"
definition MidiStatus_ProgramChange :: MidiStatus where "MidiStatus_ProgramChange = 4"
definition MidiStatus_ChannelPressure :: MidiStatus where "MidiStatus_ChannelPressure = 5"
definition MidiStatus_PitchBend :: MidiStatus where "MidiStatus_PitchBend = 6"
definition MidiStatus_Extended :: MidiStatus where "MidiStatus_Extended = 7"
definition MidiStatus_Unknown :: MidiStatus where "MidiStatus_Unknown = 8"

text \<open>
  The six external handlers. A call is recorded as a value; a decode step returns the
  list of calls it made, in order. \<open>sysex\<close> receives a byte count and a pointer to the
  data buffer: the call records the count and the contents of the buffer at that moment.
  \<open>pitchBend\<close> takes an \<open>int16_t\<close>, read with \<open>sint\<close>.
\<close>

datatype handlerCall =
    noteOn "8 word" "8 word" "8 word"
  | noteOff "8 word" "8 word"
  | controlChange "8 word" "8 word" "8 word"
  | pitchBend "8 word" "16 word"
  | programChange "8 word" "8 word"
  | sysex "8 word" "8 word list"

text \<open>The static members of class \<open>Midi\<close>.\<close>

record Midi =
  midiStatus :: MidiStatus
  midiChannel :: "8 word"
  midiDataRemaining :: "8 word"
  midiDataIndex :: "8 word"
  midiData :: "8 word list"

definition maxMidiData :: "8 word" where
  "maxMidiData = 32"

definition midiStatusToDataLength :: "8 word list" where
  "midiStatusToDataLength = [2, 2, 2, 2, 1, 1, 2, maxMidiData]"

text \<open>The initial values of the static members (lines 272 to 276).\<close>

definition Midi_init :: Midi where
  "Midi_init = \<lparr> midiStatus = MidiStatus_Unknown, midiChannel = 0xFF,
                 midiDataRemaining = 0, midiDataIndex = 0,
                 midiData = replicate (unat maxMidiData) 0 \<rparr>"

text \<open>
  An access outside an array is undefined behaviour in C++; the model stops with a fault
  there instead of continuing with an arbitrary value.
\<close>

datatype fault = TableIndexOutOfRange | BufferIndexOutOfRange

subsection \<open>Operations\<close>

text \<open>
  \<open>dispatchCommand\<close>: the switch over \<open>midiStatus\<close>, returning the handler call made.
  The pitch-bend arithmetic is done on \<open>int16_t\<close>: the data byte is at most 255, so the
  shift by 7 stays below \<open>2^15\<close> and the 16-bit word computes what the C++ computes.
\<close>

definition dispatchCommand :: "Midi \<Rightarrow> handlerCall list" where
  "dispatchCommand s =
     (let midiData0 = midiData s ! 0 in
      if midiStatus s = MidiStatus_NoteOff then
        [noteOff (midiChannel s) midiData0]
      else if midiStatus s = MidiStatus_NoteOn then
        (if midiData s ! 1 = 0
         then [noteOff (midiChannel s) midiData0]
         else [noteOn (midiChannel s) midiData0 (midiData s ! 1)])
      else if midiStatus s = MidiStatus_PitchBend then
        (let v0 = (ucast (midiData s ! 1) :: 16 word);
             v1 = push_bit 7 v0;
             v2 = v1 OR ucast midiData0;
             v3 = v2 - 0x2000
         in [pitchBend (midiChannel s) v3])
      else if midiStatus s = MidiStatus_ControlChange then
        [controlChange (midiChannel s) midiData0 (midiData s ! 1)]
      else if midiStatus s = MidiStatus_ProgramChange then
        [programChange (midiChannel s) midiData0]
      else [])"

text \<open>
  \<open>decode\<close>, with the length table as a parameter. The result is the new state and the
  handler calls made, or a fault where the C++ would index outside
  \<open>midiStatusToDataLength\<close> or \<open>midiData\<close>.
\<close>

definition decodeWith :: "8 word list \<Rightarrow> Midi \<Rightarrow> 8 word \<Rightarrow> fault + (Midi \<times> handlerCall list)" where
  "decodeWith tbl s byte =
     (if byte AND 0x80 \<noteq> 0 then
        if midiStatus s = MidiStatus_Extended then
          Inr (s\<lparr>midiStatus := MidiStatus_Unknown\<rparr>, [sysex (midiDataIndex s) (midiData s)])
        else
          let st = drop_bit 4 byte - 8 in
          if unat st < length tbl then
            Inr (s\<lparr>midiStatus := st,
                   midiDataRemaining := tbl ! unat st,
                   midiDataIndex := 0,
                   midiChannel := byte AND 0x0F\<rparr>, [])
          else Inl TableIndexOutOfRange
      else
        if midiDataRemaining s > 0 then
          if unat (midiDataIndex s) < length (midiData s) then
            let s1 = s\<lparr>midiData := (midiData s)[unat (midiDataIndex s) := byte],
                       midiDataIndex := midiDataIndex s + 1\<rparr>;
                s2 = s1\<lparr>midiDataRemaining := midiDataRemaining s1 - 1\<rparr>
            in Inr (s2, if midiDataRemaining s2 = 0 then dispatchCommand s2 else [])
          else Inl BufferIndexOutOfRange
        else Inr (s, []))"

definition decode :: "Midi \<Rightarrow> 8 word \<Rightarrow> fault + (Midi \<times> handlerCall list)" where
  "decode = decodeWith midiStatusToDataLength"

text \<open>
  \<open>dispatch\<close> calls \<open>decode\<close> on each byte taken from the receive queue, in order.
  \<open>decodeAll\<close> is that loop over the bytes dequeued; it collects the handler calls and
  stops at the first fault.
\<close>

fun decodeAll :: "Midi \<Rightarrow> 8 word list \<Rightarrow> fault + (Midi \<times> handlerCall list)" where
  "decodeAll s [] = Inr (s, [])"
| "decodeAll s (b # bs) =
     (case decode s b of
        Inl e \<Rightarrow> Inl e
      | Inr (s1, calls1) \<Rightarrow>
          (case decodeAll s1 bs of
             Inl e \<Rightarrow> Inl e
           | Inr (s2, calls2) \<Rightarrow> Inr (s2, calls1 @ calls2)))"

text \<open>
  The bound that keeps every write inside \<open>midiData\<close>: the buffer has its declared
  size, and the write index plus the number of data bytes still expected does not exceed it.
\<close>

definition bufferInv :: "Midi \<Rightarrow> bool" where
  "bufferInv s \<longleftrightarrow>
     length (midiData s) = unat maxMidiData
     \<and> unat (midiDataIndex s) + unat (midiDataRemaining s) \<le> unat maxMidiData"

text \<open>
  \<open>sysex\<close> is told how many bytes of the buffer belong to the message. \<open>dispatched\<close>
  cuts the buffer recorded in a \<open>sysex\<close> call down to those bytes, and leaves the other
  calls as they are: it is what a handler is given to read.
\<close>

fun dispatched :: "handlerCall \<Rightarrow> handlerCall" where
  "dispatched (sysex cbData bytes) = sysex cbData (take (unat cbData) bytes)"
| "dispatched c = c"

text \<open>
  Two states that agree on everything but the buffer contents at and beyond the write
  index, and the invariant that ties the write index to the status: for the seven
  channel-message kinds, write index plus remaining count is the length of the message.
\<close>

definition sameUpToIndex :: "Midi \<Rightarrow> Midi \<Rightarrow> bool" where
  "sameUpToIndex s t \<longleftrightarrow>
     midiStatus s = midiStatus t \<and> midiChannel s = midiChannel t
     \<and> midiDataRemaining s = midiDataRemaining t \<and> midiDataIndex s = midiDataIndex t
     \<and> length (midiData s) = length (midiData t)
     \<and> take (unat (midiDataIndex s)) (midiData s) = take (unat (midiDataIndex s)) (midiData t)"

definition messageInv :: "Midi \<Rightarrow> bool" where
  "messageInv s \<longleftrightarrow>
     bufferInv s
     \<and> (unat (midiStatus s) < 7 \<longrightarrow>
          unat (midiDataIndex s) + unat (midiDataRemaining s)
            = unat (midiStatusToDataLength ! unat (midiStatus s)))"

section \<open>Properties\<close>

lemmas MidiStatus_defs =
  MidiStatus_NoteOff_def MidiStatus_NoteOn_def MidiStatus_PolyKeyPressure_def
  MidiStatus_ControlChange_def MidiStatus_ProgramChange_def MidiStatus_ChannelPressure_def
  MidiStatus_PitchBend_def MidiStatus_Extended_def MidiStatus_Unknown_def

subsection \<open>Bytes, nibbles and the status index\<close>

lemma odd_div_128: "n < 256 \<Longrightarrow> odd (n div 128) = (128 \<le> (n::nat))"
proof (cases "128 \<le> n")
  case True
  assume "n < 256"
  with True have "n div 128 = 1" by simp
  with True show ?thesis by simp
next
  case False
  then have "n div 128 = 0" by simp
  with False show ?thesis by simp
qed

lemma top_bit_set_iff: "((b :: 8 word) AND 0x80 \<noteq> 0) = (128 \<le> unat b)"
proof -
  have "(b AND 0x80 \<noteq> 0) = bit b 7"
    using and_exp_eq_0_iff_not_bit [of b 7] by simp
  also have "\<dots> = bit (unat b) 7"
    by (simp add: bit_unsigned_iff)
  also have "\<dots> = odd (unat b div 128)"
    by (simp add: bit_iff_odd)
  also have "\<dots> = (128 \<le> unat b)"
  proof -
    have "unat b < 256" using unsigned_less [of b] by simp
    then show ?thesis by (rule odd_div_128)
  qed
  finally show ?thesis .
qed

lemma data_byte_uint: "((b :: 8 word) AND 0x80 = 0) = (uint b < 128)"
proof -
  have "(b AND 0x80 = 0) = (unat b < 128)"
    using top_bit_set_iff [of b] by auto
  also have "\<dots> = (int (unat b) < 128)"
    by linarith
  also have "int (unat b) = uint b"
    by (rule of_nat_unat)
  finally show ?thesis .
qed

lemma unat_drop_bit_4: "unat (drop_bit 4 (b :: 8 word)) = unat b div 16"
  by (simp add: unat_drop_bit_eq drop_bit_eq_div unat_div)

lemma low_nibble_unat: "unat ((b :: 8 word) AND 0x0F) = unat b mod 16"
proof -
  have "b AND 0x0F = take_bit 4 b"
    by (simp add: take_bit_eq_mask mask_eq_exp_minus_1)
  then have "unat (b AND 0x0F) = take_bit 4 (unat b)"
    by (simp only: unsigned_take_bit_eq)
  then show ?thesis by (simp add: take_bit_eq_mod)
qed

lemma status_index_unat:
  assumes "(b :: 8 word) AND 0x80 \<noteq> 0"
  shows "unat (drop_bit 4 b - 8) = unat b div 16 - 8" and "unat (drop_bit 4 b - 8) < 8"
proof -
  have lo: "128 \<le> unat b" using assms by (simp add: top_bit_set_iff)
  have hi: "unat b < 256" using unsigned_less [of b] by simp
  have d: "unat (drop_bit 4 b) = unat b div 16" by (rule unat_drop_bit_4)
  have "unat (8 :: 8 word) \<le> unat (drop_bit 4 b)" using lo d by simp
  then have "(8 :: 8 word) \<le> drop_bit 4 b" by (simp only: word_le_nat_alt)
  then have "unat (drop_bit 4 b - 8) = unat (drop_bit 4 b) - unat (8 :: 8 word)"
    by (rule unat_sub)
  then show "unat (drop_bit 4 b - 8) = unat b div 16 - 8" using d by simp
  then show "unat (drop_bit 4 b - 8) < 8" using hi by simp
qed

lemma status_nibble:
  assumes "(lo :: 8 word) \<le> sb" and "sb \<le> lo + 0x0F" and "unat lo = 16 * k" and "8 \<le> k" and "k < 16"
  shows "sb AND 0x80 \<noteq> 0" and "unat (drop_bit 4 sb - 8) = k - 8"
proof -
  have u: "unat (lo + 0x0F) = unat lo + 15"
    using assms(3,5) by (simp add: unat_word_ariths)
  have lo: "16 * k \<le> unat sb" using assms(1,3) by (simp add: word_le_nat_alt)
  have hi: "unat sb \<le> 16 * k + 15" using assms(2,3) u by (simp add: word_le_nat_alt)
  from lo assms(4) have "128 \<le> unat sb" by simp
  then show top: "sb AND 0x80 \<noteq> 0" by (simp only: top_bit_set_iff)
  have "unat sb div 16 = k" using lo hi by simp
  then show "unat (drop_bit 4 sb - 8) = k - 8"
    using status_index_unat(1) [OF top] by simp
qed

lemma status_channel:
  assumes "(lo :: 8 word) \<le> sb" and "sb \<le> lo + 0x0F" and "unat lo = 16 * k" and "k < 16"
  shows "unat (sb AND 0x0F) = unat sb - unat lo"
proof -
  have u: "unat (lo + 0x0F) = unat lo + 15"
    using assms(3,4) by (simp add: unat_word_ariths)
  have lo: "16 * k \<le> unat sb" using assms(1,3) by (simp add: word_le_nat_alt)
  have hi: "unat sb \<le> 16 * k + 15" using assms(2,3) u by (simp add: word_le_nat_alt)
  define r where "r = unat sb - 16 * k"
  have r: "unat sb = 16 * k + r" "r < 16" using lo hi by (simp_all add: r_def)
  have "unat sb mod 16 = r" using r by simp
  then show ?thesis using r(1) assms(3) by (simp add: low_nibble_unat)
qed

subsection \<open>Single steps of the decoder\<close>

lemma tbl_length: "length midiStatusToDataLength = 8"
  by (simp add: midiStatusToDataLength_def)

lemma decode_status_byte:
  assumes "byte AND 0x80 \<noteq> 0" and "midiStatus s \<noteq> MidiStatus_Extended"
  shows "decode s byte =
           Inr (s\<lparr>midiStatus := drop_bit 4 byte - 8,
                  midiDataRemaining := midiStatusToDataLength ! unat (drop_bit 4 byte - 8),
                  midiDataIndex := 0,
                  midiChannel := byte AND 0x0F\<rparr>, [])"
proof -
  have "unat (drop_bit 4 byte - 8) < length midiStatusToDataLength"
    using status_index_unat(2) [OF assms(1)] by (simp only: tbl_length)
  then show ?thesis
    unfolding decode_def decodeWith_def Let_def using assms by (simp only: if_True if_False simp_thms)
qed

lemma decode_data_byte_stored:
  assumes "byte AND 0x80 = 0" and "midiDataRemaining s \<noteq> 0"
    and "unat (midiDataIndex s) < length (midiData s)"
  shows "decode s byte =
           Inr (s\<lparr>midiData := (midiData s)[unat (midiDataIndex s) := byte],
                  midiDataIndex := midiDataIndex s + 1,
                  midiDataRemaining := midiDataRemaining s - 1\<rparr>,
                if midiDataRemaining s - 1 = 0
                then dispatchCommand
                       (s\<lparr>midiData := (midiData s)[unat (midiDataIndex s) := byte],
                          midiDataIndex := midiDataIndex s + 1,
                          midiDataRemaining := midiDataRemaining s - 1\<rparr>)
                else [])"
  using assms by (simp add: decode_def decodeWith_def word_greater_zero_iff Let_def)

lemma decode_data_byte_dropped:
  assumes "byte AND 0x80 = 0" and "midiDataRemaining s = 0"
  shows "decode s byte = Inr (s, [])"
  using assms by (simp add: decode_def decodeWith_def)

lemma decodeAll_data_dropped:
  assumes "midiDataRemaining s = 0" and "\<forall>d \<in> set ds. d AND 0x80 = 0"
  shows "decodeAll s ds = Inr (s, [])"
  using assms(2)
proof (induction ds)
  case Nil
  show ?case by simp
next
  case (Cons d ds)
  then have "d AND 0x80 = 0" and "decodeAll s ds = Inr (s, [])" by simp_all
  then show ?case by (simp add: decode_data_byte_dropped [OF _ assms(1)])
qed

lemma two_byte_message:
  assumes sb: "sb AND 0x80 \<noteq> 0"
    and ne: "midiStatus s \<noteq> MidiStatus_Extended"
    and len: "midiStatusToDataLength ! unat (drop_bit 4 sb - 8) = 2"
    and d0: "d0 AND 0x80 = 0" and d1: "d1 AND 0x80 = 0"
    and buf: "2 \<le> length (midiData s)"
  defines "s1 \<equiv> s\<lparr>midiStatus := drop_bit 4 sb - 8, midiDataRemaining := 2,
                    midiDataIndex := 0, midiChannel := sb AND 0x0F\<rparr>"
  defines "s2 \<equiv> s1\<lparr>midiData := (midiData s)[0 := d0], midiDataIndex := 1,
                     midiDataRemaining := 1\<rparr>"
  defines "s3 \<equiv> s2\<lparr>midiData := (midiData s)[0 := d0, 1 := d1], midiDataIndex := 2,
                     midiDataRemaining := 0\<rparr>"
  shows "decode s sb = Inr (s1, [])"
    and "decode s1 d0 = Inr (s2, [])"
    and "decode s2 d1 = Inr (s3, dispatchCommand s3)"
proof -
  show "decode s sb = Inr (s1, [])"
    using decode_status_byte [OF sb ne] len by (simp add: s1_def)
  have r1: "midiDataRemaining s1 \<noteq> 0" by (simp add: s1_def)
  have ne0: "midiData s \<noteq> []" using buf by (cases "midiData s") simp_all
  have i1: "unat (midiDataIndex s1) < length (midiData s1)" using ne0 by (simp add: s1_def)
  show "decode s1 d0 = Inr (s2, [])"
    unfolding decode_data_byte_stored [OF d0 r1 i1] by (simp add: s1_def s2_def)
  have r2: "midiDataRemaining s2 \<noteq> 0" by (simp add: s2_def)
  have i2: "unat (midiDataIndex s2) < length (midiData s2)" using buf by (simp add: s2_def)
  show "decode s2 d1 = Inr (s3, dispatchCommand s3)"
    unfolding decode_data_byte_stored [OF d1 r2 i2] by (simp add: s1_def s2_def s3_def)
qed

subsection \<open>Pitch-bend arithmetic\<close>

lemma pitchBend_uint:
  fixes d0 d1 :: "8 word"
  shows "uint (push_bit 7 (ucast d1 :: 16 word) OR ucast d0) = push_bit 7 (uint d1) OR uint d0"
proof -
  have b1: "uint d1 < 2 ^ 8" using unsigned_less [of d1, where 'a = int] by simp
  have "push_bit 7 (uint d1) < 2 ^ 16" "0 \<le> push_bit 7 (uint d1)"
    using b1 by (simp_all add: push_bit_eq_mult)
  then have t: "take_bit 16 (push_bit 7 (uint d1)) = push_bit 7 (uint d1)"
    by (simp add: take_bit_int_eq_self)
  have u1: "uint (ucast d1 :: 16 word) = uint d1"
    by (rule uint_up_ucast) (simp add: is_up)
  have u0: "uint (ucast d0 :: 16 word) = uint d0"
    by (rule uint_up_ucast) (simp add: is_up)
  have "uint (push_bit 7 (ucast d1 :: 16 word)) = take_bit 16 (push_bit 7 (uint (ucast d1 :: 16 word)))"
    by (simp only: unsigned_push_bit_eq len_of_numeral_defs) simp
  with u1 t have "uint (push_bit 7 (ucast d1 :: 16 word)) = push_bit 7 (uint d1)" by simp
  with u0 show ?thesis by (simp only: uint_or)
qed

lemma sint_rebias:
  fixes W :: "16 word"
  assumes "uint W < 2 ^ 15"
  shows "sint (W - 0x2000) = uint W - 0x2000"
proof -
  have nn: "0 \<le> uint W" by simp
  have "W - 0x2000 = word_of_int (uint W - uint (0x2000 :: 16 word))"
    by (rule word_sub_wi)
  also have "uint (0x2000 :: 16 word) = 0x2000" by simp
  finally have e: "W - 0x2000 = word_of_int (uint W - 0x2000)" .
  have "sint (word_of_int (uint W - 0x2000) :: 16 word) = signed_take_bit 15 (uint W - 0x2000)"
    by (simp only: sint_sbintrunc') simp
  also have "\<dots> = uint W - 0x2000"
    using assms nn by (intro signed_take_bit_int_eq_self) simp_all
  finally show ?thesis by (simp only: e)
qed

lemma pitchBend_value:
  fixes d0 d1 :: "8 word"
  shows "sint ((push_bit 7 (ucast d1 :: 16 word) OR ucast d0) - 0x2000)
           = (push_bit 7 (uint d1) OR uint d0) - 0x2000"
proof -
  have b1: "uint d1 < 2 ^ 8" using unsigned_less [of d1, where 'a = int] by simp
  have b0: "uint d0 < 2 ^ 8" using unsigned_less [of d0, where 'a = int] by simp
  have p: "0 \<le> push_bit 7 (uint d1)" "push_bit 7 (uint d1) < 2 ^ 15"
    using b1 by (simp_all add: push_bit_eq_mult)
  have b0': "uint d0 < 2 ^ 15" using b0 by simp
  have "push_bit 7 (uint d1) OR uint d0 < 2 ^ 15"
    using p(1) p(2) b0' by (rule OR_upper)
  then have "uint (push_bit 7 (ucast d1 :: 16 word) OR ucast d0) < 2 ^ 15"
    by (simp only: pitchBend_uint)
  then have "sint ((push_bit 7 (ucast d1 :: 16 word) OR ucast d0) - 0x2000)
        = uint (push_bit 7 (ucast d1 :: 16 word) OR ucast d0) - 0x2000"
    by (rule sint_rebias)
  then show ?thesis by (simp only: pitchBend_uint)
qed

lemma pitchBend_range:
  fixes d0 d1 :: "8 word"
  assumes "d0 AND 0x80 = 0" "d1 AND 0x80 = 0"
  shows "0 \<le> push_bit 7 (uint d1) OR uint d0" "push_bit 7 (uint d1) OR uint d0 < 2 ^ 14"
proof -
  have b0: "uint d0 < 2 ^ 14" using assms(1) by (simp add: data_byte_uint)
  have b1: "uint d1 < 128" using assms(2) by (simp add: data_byte_uint)
  have p: "0 \<le> push_bit 7 (uint d1)" "push_bit 7 (uint d1) < 2 ^ 14"
    using b1 by (simp_all add: push_bit_eq_mult)
  show "push_bit 7 (uint d1) OR uint d0 < 2 ^ 14"
    using p(1) p(2) b0 by (rule OR_upper)
  show "0 \<le> push_bit 7 (uint d1) OR uint d0"
    using p(1) by simp
qed

lemma recombine_14: "push_bit 7 (drop_bit 7 (u :: int)) OR (u AND 0x7F) = u"
proof -
  have "u AND 0x7F = take_bit 7 u"
    by (simp add: take_bit_eq_mask mask_eq_exp_minus_1)
  moreover have "push_bit 7 (drop_bit 7 u) OR take_bit 7 u = u"
    by (rule bit_eqI) (auto simp add: bit_simps)
  ultimately show ?thesis by simp
qed

lemma uint_word8_of_int:
  assumes "0 \<le> k" and "k < 128"
  shows "uint (word_of_int k :: 8 word) = k"
proof -
  have "uint (word_of_int k :: 8 word) = take_bit 8 k"
    by (simp add: uint_word_of_int_eq)
  also have "\<dots> = k"
    using assms by (intro take_bit_int_eq_self) simp_all
  finally show ?thesis .
qed

lemma encode_bytes:
  fixes u :: int
  assumes "0 \<le> u" and "u < 2 ^ 14"
  shows "uint (word_of_int (u AND 0x7F) :: 8 word) = u AND 0x7F"
    and "uint (word_of_int (drop_bit 7 u) :: 8 word) = drop_bit 7 u"
    and "(word_of_int (u AND 0x7F) :: 8 word) AND 0x80 = 0"
    and "(word_of_int (drop_bit 7 u) :: 8 word) AND 0x80 = 0"
proof -
  have a: "0 \<le> u AND 0x7F" "u AND 0x7F < 128"
    using assms(1) AND_upper2' [of 127 127 u] by simp_all
  have d: "0 \<le> drop_bit 7 u" "drop_bit 7 u < 128"
    using assms by (simp_all add: drop_bit_eq_div)
  show 1: "uint (word_of_int (u AND 0x7F) :: 8 word) = u AND 0x7F"
    using a by (rule uint_word8_of_int)
  show 2: "uint (word_of_int (drop_bit 7 u) :: 8 word) = drop_bit 7 u"
    using d by (rule uint_word8_of_int)
  show "(word_of_int (u AND 0x7F) :: 8 word) AND 0x80 = 0"
    using a by (simp only: data_byte_uint 1)
  show "(word_of_int (drop_bit 7 u) :: 8 word) AND 0x80 = 0"
    using d by (simp only: data_byte_uint 2)
qed

text \<open>A pitch-bend message, with the value as \<open>dispatchCommand\<close> computes it.\<close>

lemma pitchBend_message:
  assumes sb: "0xE0 \<le> sb" "sb \<le> 0xEF"
    and d0: "lsb AND 0x80 = 0" and d1: "msb AND 0x80 = 0"
    and ne: "midiStatus s \<noteq> MidiStatus_Extended"
    and buf: "length (midiData s) = unat maxMidiData"
  shows "\<exists>s1 s2 s3.
           decode s sb = Inr (s1, [])
         \<and> decode s1 lsb = Inr (s2, [])
         \<and> decode s2 msb =
             Inr (s3, [pitchBend (sb AND 0x0F)
                         ((push_bit 7 (ucast msb) OR ucast lsb) - 0x2000)])"
proof -
  have top: "sb AND 0x80 \<noteq> 0" and idx: "unat (drop_bit 4 sb - 8) = 6"
    using status_nibble [of "0xE0" sb 14] sb by simp_all
  have st: "drop_bit 4 sb - 8 = MidiStatus_PitchBend"
    by (simp add: word_unat_eq_iff idx MidiStatus_PitchBend_def)
  have len: "midiStatusToDataLength ! unat (drop_bit 4 sb - 8) = 2"
    by (simp add: idx midiStatusToDataLength_def)
  have buf2: "2 \<le> length (midiData s)" using buf by (simp add: maxMidiData_def)
  note m = two_byte_message [OF top ne len d0 d1 buf2]
  have h: "dispatchCommand (s\<lparr>midiStatus := drop_bit 4 sb - 8, midiDataRemaining := 2,
               midiDataIndex := 0, midiChannel := sb AND 0x0F,
               midiData := (midiData s)[0 := lsb],
               midiDataIndex := 1, midiDataRemaining := 1,
               midiData := (midiData s)[0 := lsb, 1 := msb],
               midiDataIndex := 2, midiDataRemaining := 0\<rparr>)
        = [pitchBend (sb AND 0x0F) ((push_bit 7 (ucast msb) OR ucast lsb) - 0x2000)]"
  proof -
    have ne0: "midiData s \<noteq> []" using buf2 by (cases "midiData s") simp_all
    have "Suc 0 < length (midiData s)" using buf2 by simp
    with ne0 show ?thesis by (simp add: dispatchCommand_def st MidiStatus_defs)
  qed
  show ?thesis using m(1) m(2) m(3) [unfolded h] by blast
qed

subsection \<open>The buffer invariant\<close>

lemma tbl_le_max:
  assumes "i < 8"
  shows "unat (midiStatusToDataLength ! i) \<le> unat maxMidiData"
proof -
  from assms have "i = 0 \<or> i = 1 \<or> i = 2 \<or> i = 3 \<or> i = 4 \<or> i = 5 \<or> i = 6 \<or> i = 7"
    by linarith
  then show ?thesis
    by (elim disjE) (simp_all add: midiStatusToDataLength_def maxMidiData_def)
qed

lemma bufferInv_init: "bufferInv Midi_init"
  by (simp add: bufferInv_def Midi_init_def)

lemma bufferInv_write:
  assumes "bufferInv s" and "midiDataRemaining s \<noteq> 0"
  shows "unat (midiDataIndex s) < length (midiData s)"
    and "unat (midiDataIndex s) < unat maxMidiData"
proof -
  have "0 < unat (midiDataRemaining s)" using assms(2) by (simp add: unat_gt_0)
  with assms(1) show "unat (midiDataIndex s) < unat maxMidiData"
    by (simp add: bufferInv_def)
  with assms(1) show "unat (midiDataIndex s) < length (midiData s)"
    by (simp add: bufferInv_def)
qed

lemma bufferInv_decode:
  assumes "bufferInv s"
  shows "\<exists>s' calls. decode s b = Inr (s', calls) \<and> bufferInv s'"
proof (cases "b AND 0x80 = 0")
  case data: True
  show ?thesis
  proof (cases "midiDataRemaining s = 0")
    case True
    with data assms show ?thesis by (simp add: decode_data_byte_dropped)
  next
    case False
    note w = bufferInv_write [OF assms False]
    have r: "0 < unat (midiDataRemaining s)" using False by (simp add: unat_gt_0)
    have i: "unat (midiDataIndex s + 1) = unat (midiDataIndex s) + 1"
      using w(2) by (simp add: unat_word_ariths maxMidiData_def)
    have d: "unat (midiDataRemaining s - 1) = unat (midiDataRemaining s) - 1"
      using False by (simp add: unat_minus_one)
    have "bufferInv (s\<lparr>midiData := (midiData s)[unat (midiDataIndex s) := b],
                  midiDataIndex := midiDataIndex s + 1,
                  midiDataRemaining := midiDataRemaining s - 1\<rparr>)"
      using assms r by (simp add: bufferInv_def i d)
    then show ?thesis
      unfolding decode_data_byte_stored [OF data False w(1)] by blast
  qed
next
  case status: False
  show ?thesis
  proof (cases "midiStatus s = MidiStatus_Extended")
    case True
    with status assms show ?thesis
      by (simp add: decode_def decodeWith_def bufferInv_def)
  next
    case False
    have "unat (midiStatusToDataLength ! unat (drop_bit 4 b - 8)) \<le> unat maxMidiData"
      using status_index_unat(2) [OF status] by (rule tbl_le_max)
    with assms have "bufferInv (s\<lparr>midiStatus := drop_bit 4 b - 8,
                  midiDataRemaining := midiStatusToDataLength ! unat (drop_bit 4 b - 8),
                  midiDataIndex := 0,
                  midiChannel := b AND 0x0F\<rparr>)"
      by (simp add: bufferInv_def)
    then show ?thesis
      unfolding decode_status_byte [OF status False] by blast
  qed
qed

lemma bufferInv_decodeAll:
  assumes "bufferInv s"
  shows "\<exists>s' calls. decodeAll s bs = Inr (s', calls) \<and> bufferInv s'"
  using assms
proof (induction bs arbitrary: s)
  case Nil
  then show ?case by simp
next
  case (Cons b bs)
  from bufferInv_decode [OF Cons.prems, of b]
  obtain s1 calls1 where 1: "decode s b = Inr (s1, calls1)" and i1: "bufferInv s1" by blast
  from Cons.IH [OF i1]
  obtain s2 calls2 where 2: "decodeAll s1 bs = Inr (s2, calls2)" and i2: "bufferInv s2" by blast
  from 1 2 i2 show ?case by simp
qed

subsection \<open>Bytes beyond the write index do not matter\<close>

lemma take_eq_nth:
  assumes "take n xs = take n ys" and "i < n"
  shows "xs ! i = ys ! i"
  using assms by (metis nth_take)

lemma dispatchCommand_same:
  assumes sim: "sameUpToIndex s t" and inv: "messageInv s" and z: "midiDataRemaining s = 0"
  shows "dispatchCommand s = dispatchCommand t"
proof -
  have st: "midiStatus t = midiStatus s" and ch: "midiChannel t = midiChannel s"
    using sim by (simp_all add: sameUpToIndex_def)
  have tk: "take (unat (midiDataIndex s)) (midiData s) = take (unat (midiDataIndex s)) (midiData t)"
    using sim unfolding sameUpToIndex_def by blast
  have nth: "midiData s ! i = midiData t ! i" if "i < unat (midiDataIndex s)" for i
    using tk that by (rule take_eq_nth)
  consider (two) "midiStatus s = MidiStatus_NoteOff \<or> midiStatus s = MidiStatus_NoteOn
                  \<or> midiStatus s = MidiStatus_PitchBend \<or> midiStatus s = MidiStatus_ControlChange"
    | (one) "midiStatus s = MidiStatus_ProgramChange"
    | (none) "midiStatus s \<noteq> MidiStatus_NoteOff" "midiStatus s \<noteq> MidiStatus_NoteOn"
             "midiStatus s \<noteq> MidiStatus_PitchBend" "midiStatus s \<noteq> MidiStatus_ControlChange"
             "midiStatus s \<noteq> MidiStatus_ProgramChange"
    by blast
  then show ?thesis
  proof cases
    case two
    then have "unat (midiStatus s) < 7 \<and> unat (midiStatusToDataLength ! unat (midiStatus s)) = 2"
      by (elim disjE) (simp_all add: MidiStatus_defs midiStatusToDataLength_def)
    with inv z have "unat (midiDataIndex s) = 2" by (simp add: messageInv_def)
    with nth have e: "midiData s ! 0 = midiData t ! 0" "midiData s ! 1 = midiData t ! 1"
      by simp_all
    show ?thesis unfolding dispatchCommand_def st ch e ..
  next
    case one
    then have "unat (midiStatus s) < 7 \<and> unat (midiStatusToDataLength ! unat (midiStatus s)) = 1"
      by (simp add: MidiStatus_defs midiStatusToDataLength_def)
    with inv z have "unat (midiDataIndex s) = 1" by (simp add: messageInv_def)
    with nth have e: "midiData s ! 0 = midiData t ! 0" by simp
    show ?thesis using one unfolding dispatchCommand_def st ch e
      by (simp add: MidiStatus_defs)
  next
    case none
    then show ?thesis by (simp add: dispatchCommand_def st)
  qed
qed


lemma messageInv_bufferInv: "messageInv s \<Longrightarrow> bufferInv s"
  by (simp add: messageInv_def)

lemma sameUpToIndex_decode:
  assumes sim: "sameUpToIndex s t" and inv: "messageInv s"
  shows "\<exists>s' t' cs ct. decode s b = Inr (s', cs) \<and> decode t b = Inr (t', ct)
           \<and> map dispatched cs = map dispatched ct
           \<and> sameUpToIndex s' t' \<and> messageInv s'"
proof -
  have eqs: "midiStatus t = midiStatus s" "midiChannel t = midiChannel s"
    "midiDataRemaining t = midiDataRemaining s" "midiDataIndex t = midiDataIndex s"
    "length (midiData t) = length (midiData s)"
    using sim by (simp_all add: sameUpToIndex_def)
  have tk: "take (unat (midiDataIndex s)) (midiData s) = take (unat (midiDataIndex s)) (midiData t)"
    using sim unfolding sameUpToIndex_def by blast
  have binv: "bufferInv s" using inv by (rule messageInv_bufferInv)
  show ?thesis
  proof (cases "b AND 0x80 = 0")
    case data: True
    show ?thesis
    proof (cases "midiDataRemaining s = 0")
      case True
      with data eqs(3) sim inv show ?thesis by (simp add: decode_data_byte_dropped)
    next
      case False
      note w = bufferInv_write [OF binv False]
      let ?i = "unat (midiDataIndex s)"
      let ?s' = "s\<lparr>midiData := (midiData s)[?i := b],
                    midiDataIndex := midiDataIndex s + 1,
                    midiDataRemaining := midiDataRemaining s - 1\<rparr>"
      let ?t' = "t\<lparr>midiData := (midiData t)[?i := b],
                    midiDataIndex := midiDataIndex s + 1,
                    midiDataRemaining := midiDataRemaining s - 1\<rparr>"
      have r: "0 < unat (midiDataRemaining s)" using False by (simp add: unat_gt_0)
      have i: "unat (midiDataIndex s + 1) = ?i + 1"
        using w(2) by (simp add: unat_word_ariths maxMidiData_def)
      have d: "unat (midiDataRemaining s - 1) = unat (midiDataRemaining s) - 1"
        using False by (simp add: unat_minus_one)
      have ds: "decode s b = Inr (?s', if midiDataRemaining s - 1 = 0 then dispatchCommand ?s' else [])"
        using decode_data_byte_stored [OF data False w(1)] .
      have ft: "midiDataRemaining t \<noteq> 0" using False eqs(3) by simp
      have wt: "unat (midiDataIndex t) < length (midiData t)" using w(1) eqs by simp
      have dt: "decode t b = Inr (?t', if midiDataRemaining s - 1 = 0 then dispatchCommand ?t' else [])"
        using decode_data_byte_stored [OF data ft wt] by (simp add: eqs)
      have tk': "take (?i + 1) ((midiData s)[?i := b]) = take (?i + 1) ((midiData t)[?i := b])"
      proof -
        have "take (?i + 1) (xs[?i := b]) = take ?i xs @ [b]" if "?i < length xs" for xs :: "8 word list"
          using that by (simp add: take_Suc_conv_app_nth)
        with w(1) eqs(5) tk show ?thesis by simp
      qed
      have sim': "sameUpToIndex ?s' ?t'"
        using eqs tk' by (simp add: sameUpToIndex_def i)
      have sum: "unat (midiDataIndex ?s') + unat (midiDataRemaining ?s')
                   = ?i + unat (midiDataRemaining s)"
        using r by (simp add: i d)
      have inv': "messageInv ?s'"
        using inv unfolding messageInv_def bufferInv_def sum by simp
      have "dispatchCommand ?s' = dispatchCommand ?t'" if "midiDataRemaining s - 1 = 0"
        using sim' inv' that by (intro dispatchCommand_same) simp_all
      then have "map dispatched (if midiDataRemaining s - 1 = 0 then dispatchCommand ?s' else [])
               = map dispatched (if midiDataRemaining s - 1 = 0 then dispatchCommand ?t' else [])"
        by simp
      with ds dt sim' inv' show ?thesis by blast
    qed
  next
    case status: False
    show ?thesis
    proof (cases "midiStatus s = MidiStatus_Extended")
      case True
      have "decode s b = Inr (s\<lparr>midiStatus := MidiStatus_Unknown\<rparr>,
                                [sysex (midiDataIndex s) (midiData s)])"
        using status True by (simp add: decode_def decodeWith_def)
      moreover have "decode t b = Inr (t\<lparr>midiStatus := MidiStatus_Unknown\<rparr>,
                                [sysex (midiDataIndex s) (midiData t)])"
        using status True eqs by (simp add: decode_def decodeWith_def)
      moreover have "map dispatched [sysex (midiDataIndex s) (midiData s)]
                   = map dispatched [sysex (midiDataIndex s) (midiData t)]"
        using tk by simp
      moreover have "sameUpToIndex (s\<lparr>midiStatus := MidiStatus_Unknown\<rparr>)
                                    (t\<lparr>midiStatus := MidiStatus_Unknown\<rparr>)"
        using eqs tk by (simp add: sameUpToIndex_def)
      moreover have "messageInv (s\<lparr>midiStatus := MidiStatus_Unknown\<rparr>)"
        using inv by (simp add: messageInv_def bufferInv_def MidiStatus_defs)
      ultimately show ?thesis by blast
    next
      case False
      let ?st = "drop_bit 4 b - 8"
      let ?s' = "s\<lparr>midiStatus := ?st, midiDataRemaining := midiStatusToDataLength ! unat ?st,
                    midiDataIndex := 0, midiChannel := b AND 0x0F\<rparr>"
      let ?t' = "t\<lparr>midiStatus := ?st, midiDataRemaining := midiStatusToDataLength ! unat ?st,
                    midiDataIndex := 0, midiChannel := b AND 0x0F\<rparr>"
      have ft: "midiStatus t \<noteq> MidiStatus_Extended" using False eqs(1) by simp
      have ds: "decode s b = Inr (?s', [])" using decode_status_byte [OF status False] .
      have dt: "decode t b = Inr (?t', [])" using decode_status_byte [OF status ft] .
      have le: "unat (midiStatusToDataLength ! unat ?st) \<le> unat maxMidiData"
        using status_index_unat(2) [OF status] by (rule tbl_le_max)
      have sim': "sameUpToIndex ?s' ?t'" using eqs by (simp add: sameUpToIndex_def)
      have inv': "messageInv ?s'"
        using binv le by (simp add: messageInv_def bufferInv_def)
      from ds dt sim' inv' show ?thesis by simp
    qed
  qed
qed

lemma sameUpToIndex_decodeAll:
  assumes "sameUpToIndex s t" and "messageInv s"
  shows "\<exists>s' t' cs ct. decodeAll s bs = Inr (s', cs) \<and> decodeAll t bs = Inr (t', ct)
           \<and> map dispatched cs = map dispatched ct"
  using assms
proof (induction bs arbitrary: s t)
  case Nil
  then show ?case by simp
next
  case (Cons b bs)
  from sameUpToIndex_decode [OF Cons.prems, of b]
  obtain s1 t1 cs1 ct1 where 1: "decode s b = Inr (s1, cs1)" "decode t b = Inr (t1, ct1)"
    "map dispatched cs1 = map dispatched ct1" and n: "sameUpToIndex s1 t1" "messageInv s1"
    by blast
  from Cons.IH [OF n]
  obtain s2 t2 cs2 ct2 where 2: "decodeAll s1 bs = Inr (s2, cs2)" "decodeAll t1 bs = Inr (t2, ct2)"
    "map dispatched cs2 = map dispatched ct2"
    by blast
  from 1 2 show ?case by simp
qed

text \<open>The message invariant holds in every state reached from the initial state.\<close>

lemma sameUpToIndex_refl: "sameUpToIndex s s"
  by (simp add: sameUpToIndex_def)

lemma messageInv_init: "messageInv Midi_init"
  using bufferInv_init by (simp add: messageInv_def Midi_init_def MidiStatus_Unknown_def)

lemma messageInv_decode:
  assumes "messageInv s"
  shows "\<exists>s' calls. decode s b = Inr (s', calls) \<and> messageInv s'"
  using sameUpToIndex_decode [OF sameUpToIndex_refl assms, of b] by blast

lemma messageInv_decodeAll:
  assumes "messageInv s" and "decodeAll s bs = Inr (s', calls)"
  shows "messageInv s'"
  using assms
proof (induction bs arbitrary: s calls)
  case Nil
  then show ?case by simp
next
  case (Cons b bs)
  from messageInv_decode [OF Cons.prems(1), of b]
  obtain s1 calls1 where 1: "decode s b = Inr (s1, calls1)" and i1: "messageInv s1" by blast
  from Cons.prems(2) 1 obtain calls2 where "decodeAll s1 bs = Inr (s', calls2)"
    by (auto split: sum.splits)
  with Cons.IH [OF i1] show ?case by blast
qed

lemma messageInv_reachable:
  assumes "decodeAll Midi_init bs = Inr (s, calls)"
  shows "messageInv s"
  using messageInv_init assms by (rule messageInv_decodeAll)

section \<open>The claims\<close>

subsection \<open>Status bytes\<close>

text \<open>
  Claim C1. In any state whose status is Extended, with \<open>k = midiDataIndex\<close> bytes
  accumulated, decoding a byte with the top bit set makes exactly one handler call,
  \<open>sysex\<close> with count \<open>k\<close> and the data buffer, so that the bytes it is given are the
  first \<open>k\<close> of the buffer, the accumulated ones. The step sets the status to Unknown
  and changes nothing else: channel, remaining count, write index and buffer are as
  before, so the byte does not start a new message.
\<close>

theorem C1_sysex_terminated_by_status_byte:
  assumes "midiStatus s = MidiStatus_Extended" and "byte AND 0x80 \<noteq> 0"
  shows "(\<exists>s'. decode s byte = Inr (s', [sysex (midiDataIndex s) (midiData s)])
           \<and> s' = s\<lparr>midiStatus := MidiStatus_Unknown\<rparr>
           \<and> midiStatus s' = MidiStatus_Unknown
           \<and> midiChannel s' = midiChannel s
           \<and> midiDataRemaining s' = midiDataRemaining s
           \<and> midiDataIndex s' = midiDataIndex s
           \<and> midiData s' = midiData s)
       \<and> map dispatched [sysex (midiDataIndex s) (midiData s)]
           = [sysex (midiDataIndex s) (take (unat (midiDataIndex s)) (midiData s))]"
  using assms by (simp add: decode_def decodeWith_def)

text \<open>
  The state after the bytes F0 01 02, then F7: \<open>sysex\<close> is called with count 2 and a
  buffer that starts with 01 02.
\<close>

theorem C1_sysex_terminated_witness:
  "decodeAll Midi_init [0xF0, 0x01, 0x02]
     = Inr (\<lparr>midiStatus = MidiStatus_Extended, midiChannel = 0, midiDataRemaining = 30,
             midiDataIndex = 2, midiData = 1 # 2 # replicate 30 0\<rparr>, [])
   \<and> (0xF7 :: 8 word) AND 0x80 \<noteq> 0
   \<and> decode \<lparr>midiStatus = MidiStatus_Extended, midiChannel = 0, midiDataRemaining = 30,
              midiDataIndex = 2, midiData = 1 # 2 # replicate 30 0\<rparr> 0xF7
       = Inr (\<lparr>midiStatus = MidiStatus_Unknown, midiChannel = 0, midiDataRemaining = 30,
               midiDataIndex = 2, midiData = 1 # 2 # replicate 30 0\<rparr>,
              [sysex 2 (1 # 2 # replicate 30 0)])"
proof -
  let ?s = "\<lparr>midiStatus = MidiStatus_Extended, midiChannel = 0, midiDataRemaining = 30,
             midiDataIndex = 2, midiData = 1 # 2 # replicate 30 0\<rparr>"
  have r: "decodeAll Midi_init [0xF0, 0x01, 0x02] = Inr (?s, [])" by code_simp
  have h1: "midiStatus ?s = MidiStatus_Extended" by simp
  have h2: "(0xF7 :: 8 word) AND 0x80 \<noteq> 0" by simp
  from C1_sysex_terminated_by_status_byte [OF h1 h2] r h2 show ?thesis by simp
qed

text \<open>
  Claim C6. A byte \<open>b\<close> with the top bit set, decoded while the status is not Extended,
  sets the status to \<open>(b >> 4) - 8\<close> (one of the eight message kinds), the channel to
  \<open>b & 0x0F\<close>, the remaining count to the table entry of that kind and the write index
  to 0, and calls no handler. The table gives 2 for NoteOff, NoteOn, PolyKeyPressure,
  ControlChange and PitchBend, 1 for ProgramChange and ChannelPressure, and 32 for
  Extended.
\<close>

theorem C6_status_byte_starts_message:
  assumes "b AND 0x80 \<noteq> 0" and "midiStatus s \<noteq> MidiStatus_Extended"
  shows "(\<exists>s'. decode s b = Inr (s', [])
           \<and> midiStatus s' = drop_bit 4 b - 8
           \<and> unat (midiStatus s') < 8
           \<and> midiChannel s' = b AND 0x0F
           \<and> midiDataRemaining s' = midiStatusToDataLength ! unat (midiStatus s')
           \<and> midiDataIndex s' = 0
           \<and> midiData s' = midiData s)
       \<and> midiStatusToDataLength ! unat MidiStatus_NoteOff = 2
       \<and> midiStatusToDataLength ! unat MidiStatus_NoteOn = 2
       \<and> midiStatusToDataLength ! unat MidiStatus_PolyKeyPressure = 2
       \<and> midiStatusToDataLength ! unat MidiStatus_ControlChange = 2
       \<and> midiStatusToDataLength ! unat MidiStatus_ProgramChange = 1
       \<and> midiStatusToDataLength ! unat MidiStatus_ChannelPressure = 1
       \<and> midiStatusToDataLength ! unat MidiStatus_PitchBend = 2
       \<and> midiStatusToDataLength ! unat MidiStatus_Extended = 32"
proof -
  have "\<exists>s'. decode s b = Inr (s', [])
           \<and> midiStatus s' = drop_bit 4 b - 8
           \<and> unat (midiStatus s') < 8
           \<and> midiChannel s' = b AND 0x0F
           \<and> midiDataRemaining s' = midiStatusToDataLength ! unat (midiStatus s')
           \<and> midiDataIndex s' = 0
           \<and> midiData s' = midiData s"
    unfolding decode_status_byte [OF assms]
    using status_index_unat(2) [OF assms(1)] by simp
  moreover have "midiStatusToDataLength ! unat MidiStatus_NoteOff = 2
       \<and> midiStatusToDataLength ! unat MidiStatus_NoteOn = 2
       \<and> midiStatusToDataLength ! unat MidiStatus_PolyKeyPressure = 2
       \<and> midiStatusToDataLength ! unat MidiStatus_ControlChange = 2
       \<and> midiStatusToDataLength ! unat MidiStatus_ProgramChange = 1
       \<and> midiStatusToDataLength ! unat MidiStatus_ChannelPressure = 1
       \<and> midiStatusToDataLength ! unat MidiStatus_PitchBend = 2
       \<and> midiStatusToDataLength ! unat MidiStatus_Extended = 32"
    by (simp add: midiStatusToDataLength_def maxMidiData_def MidiStatus_defs)
  ultimately show ?thesis by (rule conjI)
qed

text \<open>The byte C5 in the initial state: ProgramChange on channel 5, one data byte expected.\<close>

theorem C6_status_byte_witness:
  "(0xC5 :: 8 word) AND 0x80 \<noteq> 0
   \<and> midiStatus Midi_init \<noteq> MidiStatus_Extended
   \<and> decode Midi_init 0xC5
       = Inr (Midi_init\<lparr>midiStatus := MidiStatus_ProgramChange, midiChannel := 5,
                        midiDataRemaining := 1, midiDataIndex := 0\<rparr>, [])"
proof -
  have h1: "(0xC5 :: 8 word) AND 0x80 \<noteq> 0" by simp
  have h2: "midiStatus Midi_init \<noteq> MidiStatus_Extended"
    by (simp add: Midi_init_def MidiStatus_defs)
  have e: "decode Midi_init 0xC5
       = Inr (Midi_init\<lparr>midiStatus := MidiStatus_ProgramChange, midiChannel := 5,
                        midiDataRemaining := 1, midiDataIndex := 0\<rparr>, [])"
    by code_simp
  from C6_status_byte_starts_message [OF h1 h2] h1 h2 e show ?thesis by simp
qed

text \<open>
  Claim C9. For a byte \<open>b\<close> with the top bit set, \<open>b >> 4\<close> lies between 8 and 15, so
  the index \<open>(b >> 4) - 8\<close> lies between 0 and 7 and is inside the eight-entry table:
  the lookup on the status-byte path never leaves the table. The data-byte path does not
  use the table: for a byte \<open>d\<close> with the top bit clear, decoding with any other table
  gives the same result, and no table fault.
\<close>

theorem C9_status_index_in_table:
  assumes "b AND 0x80 \<noteq> 0" and "d AND 0x80 = 0"
  shows "8 \<le> unat (drop_bit 4 b) \<and> unat (drop_bit 4 b) \<le> 15
       \<and> unat (drop_bit 4 b - 8) = unat (drop_bit 4 b) - 8
       \<and> unat (drop_bit 4 b - 8) < length midiStatusToDataLength
       \<and> length midiStatusToDataLength = 8
       \<and> decode s b \<noteq> Inl TableIndexOutOfRange
       \<and> decode s d \<noteq> Inl TableIndexOutOfRange
       \<and> decodeWith tbl s d = decode s d"
proof -
  have lo: "128 \<le> unat b" using assms(1) by (simp only: top_bit_set_iff)
  have hi: "unat b < 256" using unsigned_less [of b] by simp
  have n: "8 \<le> unat (drop_bit 4 b)" "unat (drop_bit 4 b) \<le> 15"
    using lo hi by (simp_all add: unat_drop_bit_4)
  have i: "unat (drop_bit 4 b - 8) = unat (drop_bit 4 b) - 8"
    using status_index_unat(1) [OF assms(1)] by (simp add: unat_drop_bit_4)
  have l: "unat (drop_bit 4 b - 8) < length midiStatusToDataLength"
    using status_index_unat(2) [OF assms(1)] by (simp add: tbl_length)
  have f: "decode s b \<noteq> Inl TableIndexOutOfRange"
    using l assms(1) by (simp add: decode_def decodeWith_def Let_def)
  have g: "decode s d \<noteq> Inl TableIndexOutOfRange"
    using assms(2) by (simp add: decode_def decodeWith_def Let_def)
  have p: "decodeWith tbl s d = decode s d"
    using assms(2) by (simp add: decode_def decodeWith_def)
  from n i l f g p tbl_length show ?thesis by simp
qed

text \<open>The status byte 9F has index 1; the data byte 40 decodes the same with an empty table.\<close>

theorem C9_status_index_witness:
  "(0x9F :: 8 word) AND 0x80 \<noteq> 0 \<and> (0x40 :: 8 word) AND 0x80 = 0
   \<and> unat (drop_bit 4 (0x9F :: 8 word) - 8) = 1
   \<and> decode Midi_init 0x9F \<noteq> Inl TableIndexOutOfRange
   \<and> decodeWith [] Midi_init 0x40 = decode Midi_init 0x40"
proof -
  have h1: "(0x9F :: 8 word) AND 0x80 \<noteq> 0" by simp
  have h2: "(0x40 :: 8 word) AND 0x80 = 0" by simp
  have e: "unat (drop_bit 4 (0x9F :: 8 word)) = 9" by simp
  from C9_status_index_in_table [OF h1 h2, of Midi_init "[]"] h1 h2 e show ?thesis by simp
qed

subsection \<open>Data bytes\<close>

text \<open>
  Claim C4, amended. In a state whose status is Unknown, decoding a byte with the top bit
  clear calls no handler; and when the remaining count is 0, as in the initial state, the
  byte is dropped and the whole state, the remaining count and the write index included,
  is unchanged. (The first part is stated for a write index inside the buffer.)
\<close>

theorem C4_unknown_state_data_byte:
  assumes "midiStatus s = MidiStatus_Unknown" and "b AND 0x80 = 0"
  shows "(midiDataRemaining s = 0 \<longrightarrow> decode s b = Inr (s, []))
       \<and> (unat (midiDataIndex s) < length (midiData s)
            \<longrightarrow> (\<exists>s'. decode s b = Inr (s', [])))"
proof (cases "midiDataRemaining s = 0")
  case True
  with assms(2) show ?thesis by (simp add: decode_data_byte_dropped)
next
  case False
  have "dispatchCommand t = []" if "midiStatus t = MidiStatus_Unknown" for t
    using that by (simp add: dispatchCommand_def MidiStatus_defs)
  then show ?thesis
    using False assms by (simp add: decode_data_byte_stored)
qed

text \<open>A data byte in the initial state is dropped.\<close>

theorem C4_unknown_state_witness:
  "midiStatus Midi_init = MidiStatus_Unknown \<and> (0x05 :: 8 word) AND 0x80 = 0
   \<and> midiDataRemaining Midi_init = 0
   \<and> unat (midiDataIndex Midi_init) < length (midiData Midi_init)
   \<and> decode Midi_init 0x05 = Inr (Midi_init, [])"
proof -
  have h1: "midiStatus Midi_init = MidiStatus_Unknown" by (simp add: Midi_init_def)
  have h2: "(0x05 :: 8 word) AND 0x80 = 0" by simp
  have h3: "midiDataRemaining Midi_init = 0" by (simp add: Midi_init_def)
  have h4: "unat (midiDataIndex Midi_init) < length (midiData Midi_init)"
    by (simp add: Midi_init_def maxMidiData_def)
  from C4_unknown_state_data_byte [OF h1 h2] h1 h2 h3 h4 show ?thesis by simp
qed

text \<open>
  As the claim was written, for every state with status Unknown, it fails after a
  system-exclusive message has been terminated: the bytes F0 01 F7 leave the status
  Unknown with 31 data bytes still expected, and the data byte 05 that follows is stored
  at index 1, moving the write index to 2 and the remaining count to 30.
\<close>

theorem C4_unknown_state_counterexample:
  "decodeAll Midi_init [0xF0, 0x01, 0xF7]
     = Inr (\<lparr>midiStatus = MidiStatus_Unknown, midiChannel = 0, midiDataRemaining = 31,
             midiDataIndex = 1, midiData = 1 # replicate 31 0\<rparr>,
            [sysex 1 (1 # replicate 31 0)])
   \<and> midiStatus \<lparr>midiStatus = MidiStatus_Unknown, midiChannel = 0, midiDataRemaining = 31,
         midiDataIndex = 1, midiData = 1 # replicate 31 0\<rparr> = MidiStatus_Unknown
   \<and> (0x05 :: 8 word) AND 0x80 = 0
   \<and> decode \<lparr>midiStatus = MidiStatus_Unknown, midiChannel = 0, midiDataRemaining = 31,
              midiDataIndex = 1, midiData = 1 # replicate 31 0\<rparr> 0x05
       = Inr (\<lparr>midiStatus = MidiStatus_Unknown, midiChannel = 0, midiDataRemaining = 30,
               midiDataIndex = 2, midiData = 1 # 5 # replicate 30 0\<rparr>, [])
   \<and> midiDataRemaining \<lparr>midiStatus = MidiStatus_Unknown, midiChannel = 0,
         midiDataRemaining = 30, midiDataIndex = 2, midiData = 1 # 5 # replicate 30 0\<rparr>
       \<noteq> midiDataRemaining \<lparr>midiStatus = MidiStatus_Unknown, midiChannel = 0,
         midiDataRemaining = 31, midiDataIndex = 1, midiData = 1 # replicate 31 0\<rparr>
   \<and> midiDataIndex \<lparr>midiStatus = MidiStatus_Unknown, midiChannel = 0,
         midiDataRemaining = 30, midiDataIndex = 2, midiData = 1 # 5 # replicate 30 0\<rparr>
       \<noteq> midiDataIndex \<lparr>midiStatus = MidiStatus_Unknown, midiChannel = 0,
         midiDataRemaining = 31, midiDataIndex = 1, midiData = 1 # replicate 31 0\<rparr>"
  by code_simp

text \<open>
  Claim C7. When a data byte takes the remaining count from 1 to 0, the message is
  dispatched, the status is left as it was, not set to Unknown, and the remaining count
  is 0. Any data bytes that follow without a status byte in between are dropped: the state
  does not change and no handler is called. This part holds whatever the status is.

  What is dispatched: in a state that satisfies the message invariant (every state reached
  from the initial state does, by \<open>messageInv_reachable\<close>), the completing byte \<open>b\<close> is
  the last data byte of the message and, for the two-byte kinds, \<open>midiData[0]\<close> holds the
  first. Then NoteOff calls \<open>noteOff(channel, data0)\<close>; NoteOn calls
  \<open>noteOff(channel, data0)\<close> if \<open>b\<close> is 0 and \<open>noteOn(channel, data0, b)\<close> otherwise;
  ControlChange calls \<open>controlChange(channel, data0, b)\<close>; ProgramChange calls
  \<open>programChange(channel, b)\<close>; PitchBend calls \<open>pitchBend\<close> with
  \<open>((b << 7) | data0) - 0x2000\<close>; PolyKeyPressure and ChannelPressure call nothing.
\<close>

theorem C7_no_running_status:
  assumes "midiDataRemaining s = 1" and "b AND 0x80 = 0"
    and "unat (midiDataIndex s) < length (midiData s)"
    and "\<forall>d \<in> set ds. d AND 0x80 = 0"
  shows "\<exists>s' calls. decode s b = Inr (s', calls)
           \<and> calls = dispatchCommand s'
           \<and> midiStatus s' = midiStatus s
           \<and> midiDataRemaining s' = 0
           \<and> midiData s' = (midiData s)[unat (midiDataIndex s) := b]
           \<and> decodeAll s' ds = Inr (s', [])
           \<and> (messageInv s \<longrightarrow>
                (midiStatus s = MidiStatus_NoteOff \<longrightarrow>
                   calls = [noteOff (midiChannel s) (midiData s ! 0)])
              \<and> (midiStatus s = MidiStatus_NoteOn \<longrightarrow>
                   calls = (if b = 0 then [noteOff (midiChannel s) (midiData s ! 0)]
                            else [noteOn (midiChannel s) (midiData s ! 0) b]))
              \<and> (midiStatus s = MidiStatus_PolyKeyPressure \<longrightarrow> calls = [])
              \<and> (midiStatus s = MidiStatus_ControlChange \<longrightarrow>
                   calls = [controlChange (midiChannel s) (midiData s ! 0) b])
              \<and> (midiStatus s = MidiStatus_ProgramChange \<longrightarrow>
                   calls = [programChange (midiChannel s) b])
              \<and> (midiStatus s = MidiStatus_ChannelPressure \<longrightarrow> calls = [])
              \<and> (midiStatus s = MidiStatus_PitchBend \<longrightarrow>
                   calls = [pitchBend (midiChannel s)
                              ((push_bit 7 (ucast b) OR ucast (midiData s ! 0)) - 0x2000)]))"
proof -
  let ?i = "unat (midiDataIndex s)"
  let ?s' = "s\<lparr>midiData := (midiData s)[?i := b],
                 midiDataIndex := midiDataIndex s + 1,
                 midiDataRemaining := midiDataRemaining s - 1\<rparr>"
  have r: "midiDataRemaining s \<noteq> 0" using assms(1) by simp
  have z: "midiDataRemaining ?s' = 0" using assms(1) by simp
  have dec: "decode s b = Inr (?s', dispatchCommand ?s')"
    unfolding decode_data_byte_stored [OF assms(2) r assms(3)] using assms(1) by simp
  have drop: "decodeAll ?s' ds = Inr (?s', [])"
    using z assms(4) by (rule decodeAll_data_dropped)
  have st: "midiStatus ?s' = midiStatus s"
    "midiData ?s' = (midiData s)[?i := b]" by simp_all
  have two: "(midiData s)[?i := b] ! 0 = midiData s ! 0 \<and> (midiData s)[?i := b] ! 1 = b"
    if "messageInv s" and "unat (midiStatusToDataLength ! unat (midiStatus s)) = 2"
      and "unat (midiStatus s) < 7"
  proof -
    from that assms(1) have "?i = 1" by (simp add: messageInv_def)
    with assms(3) show ?thesis by simp
  qed
  have one: "(midiData s)[?i := b] ! 0 = b"
    if "messageInv s" and "unat (midiStatusToDataLength ! unat (midiStatus s)) = 1"
      and "unat (midiStatus s) < 7"
  proof -
    from that assms(1) have "?i = 0" by (simp add: messageInv_def)
    with assms(3) show ?thesis by simp
  qed
  have k0: "dispatchCommand ?s' = [noteOff (midiChannel s) (midiData s ! 0)]"
    if "messageInv s" and k: "midiStatus s = MidiStatus_NoteOff"
    using two [OF that(1)] k
    by (simp add: dispatchCommand_def MidiStatus_defs midiStatusToDataLength_def)
  have k1: "dispatchCommand ?s' = (if b = 0 then [noteOff (midiChannel s) (midiData s ! 0)]
                            else [noteOn (midiChannel s) (midiData s ! 0) b])"
    if "messageInv s" and k: "midiStatus s = MidiStatus_NoteOn"
    using two [OF that(1)] k
    by (simp add: dispatchCommand_def MidiStatus_defs midiStatusToDataLength_def)
  have k2: "dispatchCommand ?s' = []" if k: "midiStatus s = MidiStatus_PolyKeyPressure"
    using k by (simp add: dispatchCommand_def MidiStatus_defs)
  have k3: "dispatchCommand ?s' = [controlChange (midiChannel s) (midiData s ! 0) b]"
    if "messageInv s" and k: "midiStatus s = MidiStatus_ControlChange"
    using two [OF that(1)] k
    by (simp add: dispatchCommand_def MidiStatus_defs midiStatusToDataLength_def)
  have k4: "dispatchCommand ?s' = [programChange (midiChannel s) b]"
    if "messageInv s" and k: "midiStatus s = MidiStatus_ProgramChange"
    using one [OF that(1)] k
    by (simp add: dispatchCommand_def MidiStatus_defs midiStatusToDataLength_def)
  have k5: "dispatchCommand ?s' = []" if k: "midiStatus s = MidiStatus_ChannelPressure"
    using k by (simp add: dispatchCommand_def MidiStatus_defs)
  have k6: "dispatchCommand ?s' = [pitchBend (midiChannel s)
                              ((push_bit 7 (ucast b) OR ucast (midiData s ! 0)) - 0x2000)]"
    if "messageInv s" and k: "midiStatus s = MidiStatus_PitchBend"
    using two [OF that(1)] k
    by (simp add: dispatchCommand_def MidiStatus_defs midiStatusToDataLength_def)
  show ?thesis
    apply (rule exI [of _ ?s'])
    apply (rule exI [of _ "dispatchCommand ?s'"])
    using dec drop st z k0 k1 k2 k3 k4 k5 k6 by simp
qed

text \<open>
  After 90 3C, the byte 40 completes a Note-On and calls \<open>noteOn(0, 60, 64)\<close>; the bytes
  3C 40 sent again without a status byte are dropped. The other six kinds, each in the
  state reached from the initial state by its status byte and first data byte: 81 3C 40
  calls \<open>noteOff(1, 60)\<close>, A2 3C 40 nothing, B0 07 7F \<open>controlChange(0, 7, 127)\<close>,
  C5 07 \<open>programChange(5, 7)\<close>, D3 10 nothing, E0 7F 3F \<open>pitchBend(0, -1)\<close>.
\<close>

theorem C7_no_running_status_witness:
  "decodeAll Midi_init [0x90, 0x3C]
     = Inr (\<lparr>midiStatus = MidiStatus_NoteOn, midiChannel = 0, midiDataRemaining = 1,
        midiDataIndex = 1, midiData = 0x3C # replicate 31 0\<rparr>, [])
   \<and> (0x40 :: 8 word) AND 0x80 = 0 \<and> (0x3C :: 8 word) AND 0x80 = 0
   \<and> decode \<lparr>midiStatus = MidiStatus_NoteOn, midiChannel = 0, midiDataRemaining = 1,
        midiDataIndex = 1, midiData = 0x3C # replicate 31 0\<rparr> 0x40
       = Inr (\<lparr>midiStatus = MidiStatus_NoteOn, midiChannel = 0, midiDataRemaining = 0,
        midiDataIndex = 2, midiData = 0x3C # 0x40 # replicate 30 0\<rparr>,
              [noteOn 0 0x3C 0x40])
   \<and> decodeAll \<lparr>midiStatus = MidiStatus_NoteOn, midiChannel = 0, midiDataRemaining = 0,
        midiDataIndex = 2, midiData = 0x3C # 0x40 # replicate 30 0\<rparr> [0x3C, 0x40]
       = Inr (\<lparr>midiStatus = MidiStatus_NoteOn, midiChannel = 0, midiDataRemaining = 0,
        midiDataIndex = 2, midiData = 0x3C # 0x40 # replicate 30 0\<rparr>, [])
   \<and> (\<exists>s'. decode \<lparr>midiStatus = MidiStatus_NoteOff, midiChannel = 1, midiDataRemaining = 1,
        midiDataIndex = 1, midiData = 0x3C # replicate 31 0\<rparr> 0x40
          = Inr (s', [noteOff 1 0x3C]))
   \<and> (\<exists>s'. decode \<lparr>midiStatus = MidiStatus_PolyKeyPressure, midiChannel = 2, midiDataRemaining = 1,
        midiDataIndex = 1, midiData = 0x3C # replicate 31 0\<rparr> 0x40
          = Inr (s', []))
   \<and> (\<exists>s'. decode \<lparr>midiStatus = MidiStatus_ControlChange, midiChannel = 0, midiDataRemaining = 1,
        midiDataIndex = 1, midiData = 0x07 # replicate 31 0\<rparr> 0x7F
          = Inr (s', [controlChange 0 0x07 0x7F]))
   \<and> (\<exists>s'. decode \<lparr>midiStatus = MidiStatus_ProgramChange, midiChannel = 5, midiDataRemaining = 1,
        midiDataIndex = 0, midiData = replicate 32 0\<rparr> 0x07
          = Inr (s', [programChange 5 0x07]))
   \<and> (\<exists>s'. decode \<lparr>midiStatus = MidiStatus_ChannelPressure, midiChannel = 3, midiDataRemaining = 1,
        midiDataIndex = 0, midiData = replicate 32 0\<rparr> 0x10
          = Inr (s', []))
   \<and> (\<exists>s'. decode \<lparr>midiStatus = MidiStatus_PitchBend, midiChannel = 0, midiDataRemaining = 1,
        midiDataIndex = 1, midiData = 0x7F # replicate 31 0\<rparr> 0x3F
          = Inr (s', [pitchBend 0 0xFFFF]))"
proof -
  let ?s = "\<lparr>midiStatus = MidiStatus_NoteOn, midiChannel = 0, midiDataRemaining = 1,
        midiDataIndex = 1, midiData = 0x3C # replicate 31 0\<rparr>"
  let ?s' = "\<lparr>midiStatus = MidiStatus_NoteOn, midiChannel = 0, midiDataRemaining = 0,
        midiDataIndex = 2, midiData = 0x3C # 0x40 # replicate 30 0\<rparr>"
  have r: "decodeAll Midi_init [0x90, 0x3C] = Inr (?s, [])" by code_simp
  have i: "messageInv ?s" using r by (rule messageInv_reachable)
  have h1: "midiDataRemaining ?s = 1" by simp
  have h2: "(0x40 :: 8 word) AND 0x80 = 0" and h2': "(0x3C :: 8 word) AND 0x80 = 0" by simp_all
  have h3: "unat (midiDataIndex ?s) < length (midiData ?s)" by simp
  have h4: "\<forall>d \<in> set [0x3C, 0x40 :: 8 word]. d AND 0x80 = 0" by simp
  have e: "decode ?s 0x40 = Inr (?s', dispatchCommand ?s')" by code_simp
  from C7_no_running_status [OF h1 h2 h3 h4] i
  obtain t calls where d: "decode ?s 0x40 = Inr (t, calls)"
    and dr: "decodeAll t [0x3C, 0x40] = Inr (t, [])"
    and c: "calls = [noteOn 0 0x3C 0x40]"
    by (auto simp add: MidiStatus_defs)
  from d e have t: "t = ?s'" by simp
  from d c t have on: "decode ?s 0x40 = Inr (?s', [noteOn 0 0x3C 0x40])" by simp
  from dr t have dr': "decodeAll ?s' [0x3C, 0x40] = Inr (?s', [])" by simp
  have r_off: "decodeAll Midi_init [0x81, 0x3C] = Inr (\<lparr>midiStatus = MidiStatus_NoteOff, midiChannel = 1, midiDataRemaining = 1,
        midiDataIndex = 1, midiData = 0x3C # replicate 31 0\<rparr>, [])" by code_simp
  have i_off: "messageInv \<lparr>midiStatus = MidiStatus_NoteOff, midiChannel = 1, midiDataRemaining = 1,
        midiDataIndex = 1, midiData = 0x3C # replicate 31 0\<rparr>"
    using r_off by (rule messageInv_reachable)
  from C7_no_running_status [of "\<lparr>midiStatus = MidiStatus_NoteOff, midiChannel = 1, midiDataRemaining = 1,
        midiDataIndex = 1, midiData = 0x3C # replicate 31 0\<rparr>" "0x40" "[]"] i_off
  have w_off: "\<exists>s'. decode \<lparr>midiStatus = MidiStatus_NoteOff, midiChannel = 1, midiDataRemaining = 1,
        midiDataIndex = 1, midiData = 0x3C # replicate 31 0\<rparr> 0x40 = Inr (s', [noteOff 1 0x3C])"
    by (auto simp add: MidiStatus_defs)
  have r_poly: "decodeAll Midi_init [0xA2, 0x3C] = Inr (\<lparr>midiStatus = MidiStatus_PolyKeyPressure, midiChannel = 2, midiDataRemaining = 1,
        midiDataIndex = 1, midiData = 0x3C # replicate 31 0\<rparr>, [])" by code_simp
  have i_poly: "messageInv \<lparr>midiStatus = MidiStatus_PolyKeyPressure, midiChannel = 2, midiDataRemaining = 1,
        midiDataIndex = 1, midiData = 0x3C # replicate 31 0\<rparr>"
    using r_poly by (rule messageInv_reachable)
  from C7_no_running_status [of "\<lparr>midiStatus = MidiStatus_PolyKeyPressure, midiChannel = 2, midiDataRemaining = 1,
        midiDataIndex = 1, midiData = 0x3C # replicate 31 0\<rparr>" "0x40" "[]"] i_poly
  have w_poly: "\<exists>s'. decode \<lparr>midiStatus = MidiStatus_PolyKeyPressure, midiChannel = 2, midiDataRemaining = 1,
        midiDataIndex = 1, midiData = 0x3C # replicate 31 0\<rparr> 0x40 = Inr (s', [])"
    by (auto simp add: MidiStatus_defs)
  have r_cc: "decodeAll Midi_init [0xB0, 0x07] = Inr (\<lparr>midiStatus = MidiStatus_ControlChange, midiChannel = 0, midiDataRemaining = 1,
        midiDataIndex = 1, midiData = 0x07 # replicate 31 0\<rparr>, [])" by code_simp
  have i_cc: "messageInv \<lparr>midiStatus = MidiStatus_ControlChange, midiChannel = 0, midiDataRemaining = 1,
        midiDataIndex = 1, midiData = 0x07 # replicate 31 0\<rparr>"
    using r_cc by (rule messageInv_reachable)
  from C7_no_running_status [of "\<lparr>midiStatus = MidiStatus_ControlChange, midiChannel = 0, midiDataRemaining = 1,
        midiDataIndex = 1, midiData = 0x07 # replicate 31 0\<rparr>" "0x7F" "[]"] i_cc
  have w_cc: "\<exists>s'. decode \<lparr>midiStatus = MidiStatus_ControlChange, midiChannel = 0, midiDataRemaining = 1,
        midiDataIndex = 1, midiData = 0x07 # replicate 31 0\<rparr> 0x7F = Inr (s', [controlChange 0 0x07 0x7F])"
    by (auto simp add: MidiStatus_defs)
  have r_pc: "decodeAll Midi_init [0xC5] = Inr (\<lparr>midiStatus = MidiStatus_ProgramChange, midiChannel = 5, midiDataRemaining = 1,
        midiDataIndex = 0, midiData = replicate 32 0\<rparr>, [])" by code_simp
  have i_pc: "messageInv \<lparr>midiStatus = MidiStatus_ProgramChange, midiChannel = 5, midiDataRemaining = 1,
        midiDataIndex = 0, midiData = replicate 32 0\<rparr>"
    using r_pc by (rule messageInv_reachable)
  from C7_no_running_status [of "\<lparr>midiStatus = MidiStatus_ProgramChange, midiChannel = 5, midiDataRemaining = 1,
        midiDataIndex = 0, midiData = replicate 32 0\<rparr>" "0x07" "[]"] i_pc
  have w_pc: "\<exists>s'. decode \<lparr>midiStatus = MidiStatus_ProgramChange, midiChannel = 5, midiDataRemaining = 1,
        midiDataIndex = 0, midiData = replicate 32 0\<rparr> 0x07 = Inr (s', [programChange 5 0x07])"
    by (auto simp add: MidiStatus_defs)
  have r_cp: "decodeAll Midi_init [0xD3] = Inr (\<lparr>midiStatus = MidiStatus_ChannelPressure, midiChannel = 3, midiDataRemaining = 1,
        midiDataIndex = 0, midiData = replicate 32 0\<rparr>, [])" by code_simp
  have i_cp: "messageInv \<lparr>midiStatus = MidiStatus_ChannelPressure, midiChannel = 3, midiDataRemaining = 1,
        midiDataIndex = 0, midiData = replicate 32 0\<rparr>"
    using r_cp by (rule messageInv_reachable)
  from C7_no_running_status [of "\<lparr>midiStatus = MidiStatus_ChannelPressure, midiChannel = 3, midiDataRemaining = 1,
        midiDataIndex = 0, midiData = replicate 32 0\<rparr>" "0x10" "[]"] i_cp
  have w_cp: "\<exists>s'. decode \<lparr>midiStatus = MidiStatus_ChannelPressure, midiChannel = 3, midiDataRemaining = 1,
        midiDataIndex = 0, midiData = replicate 32 0\<rparr> 0x10 = Inr (s', [])"
    by (auto simp add: MidiStatus_defs)
  have r_pb: "decodeAll Midi_init [0xE0, 0x7F] = Inr (\<lparr>midiStatus = MidiStatus_PitchBend, midiChannel = 0, midiDataRemaining = 1,
        midiDataIndex = 1, midiData = 0x7F # replicate 31 0\<rparr>, [])" by code_simp
  have i_pb: "messageInv \<lparr>midiStatus = MidiStatus_PitchBend, midiChannel = 0, midiDataRemaining = 1,
        midiDataIndex = 1, midiData = 0x7F # replicate 31 0\<rparr>"
    using r_pb by (rule messageInv_reachable)
  from C7_no_running_status [of "\<lparr>midiStatus = MidiStatus_PitchBend, midiChannel = 0, midiDataRemaining = 1,
        midiDataIndex = 1, midiData = 0x7F # replicate 31 0\<rparr>" "0x3F" "[]"] i_pb
  have w_pb: "\<exists>s'. decode \<lparr>midiStatus = MidiStatus_PitchBend, midiChannel = 0, midiDataRemaining = 1,
        midiDataIndex = 1, midiData = 0x7F # replicate 31 0\<rparr> 0x3F = Inr (s', [pitchBend 0 0xFFFF])"
    by (auto simp add: MidiStatus_defs)
  from r h2 h2' on dr' w_off w_poly w_cc w_pc w_cp w_pb show ?thesis by blast
qed

subsection \<open>Complete messages\<close>

text \<open>
  Claim C2, amended: the message is decoded from a state whose status is not Extended.
  Let \<open>sb\<close> be a Note-On status byte \<open>0x9n\<close> and \<open>note\<close>, \<open>velocity\<close> two
  data bytes, decoded in this order from a state whose status is not Extended (any other
  status, the initial state included). The status byte and the
  first data byte call no handler. The second data byte makes exactly one call:
  \<open>noteOff(n, note)\<close> if the velocity is 0, \<open>noteOn(n, note, velocity)\<close> otherwise,
  where the channel \<open>sb & 0x0F\<close> is \<open>n\<close>.
\<close>

theorem C2_note_on_message:
  assumes sb: "0x90 \<le> sb" "sb \<le> 0x9F"
    and d0: "note AND 0x80 = 0" and d1: "velocity AND 0x80 = 0"
    and ne: "midiStatus s \<noteq> MidiStatus_Extended"
    and buf: "length (midiData s) = unat maxMidiData"
  shows "(\<exists>s1 s2 s3.
           decode s sb = Inr (s1, [])
         \<and> decode s1 note = Inr (s2, [])
         \<and> decode s2 velocity =
             Inr (s3, if velocity = 0 then [noteOff (sb AND 0x0F) note]
                      else [noteOn (sb AND 0x0F) note velocity]))
       \<and> unat (sb AND 0x0F) = unat sb - 0x90"
proof -
  have top: "sb AND 0x80 \<noteq> 0" and idx: "unat (drop_bit 4 sb - 8) = 1"
    using status_nibble [of "0x90" sb 9] sb by simp_all
  have ch: "unat (sb AND 0x0F) = unat sb - 0x90"
    using status_channel [of "0x90" sb 9] sb by simp
  have st: "drop_bit 4 sb - 8 = MidiStatus_NoteOn"
    by (simp add: word_unat_eq_iff idx MidiStatus_NoteOn_def)
  have len: "midiStatusToDataLength ! unat (drop_bit 4 sb - 8) = 2"
    by (simp add: idx midiStatusToDataLength_def)
  have buf2: "2 \<le> length (midiData s)" using buf by (simp add: maxMidiData_def)
  note m = two_byte_message [OF top ne len d0 d1 buf2]
  have h: "dispatchCommand (s\<lparr>midiStatus := drop_bit 4 sb - 8, midiDataRemaining := 2,
               midiDataIndex := 0, midiChannel := sb AND 0x0F,
               midiData := (midiData s)[0 := note],
               midiDataIndex := 1, midiDataRemaining := 1,
               midiData := (midiData s)[0 := note, 1 := velocity],
               midiDataIndex := 2, midiDataRemaining := 0\<rparr>)
        = (if velocity = 0 then [noteOff (sb AND 0x0F) note]
                      else [noteOn (sb AND 0x0F) note velocity])"
  proof -
    have ne0: "midiData s \<noteq> []" using buf2 by (cases "midiData s") simp_all
    have "Suc 0 < length (midiData s)" using buf2 by simp
    with ne0 show ?thesis by (simp add: dispatchCommand_def st MidiStatus_defs)
  qed
  show ?thesis using m(1) m(2) m(3) [unfolded h] ch by blast
qed

text \<open>
  From the initial state: 93 3C 40 calls \<open>noteOn(3, 60, 64)\<close>, and 93 3C 00 calls
  \<open>noteOff(3, 60)\<close>.
\<close>

theorem C2_note_on_witness:
  "(0x90 :: 8 word) \<le> 0x93 \<and> (0x93 :: 8 word) \<le> 0x9F
   \<and> (0x3C :: 8 word) AND 0x80 = 0 \<and> (0x40 :: 8 word) AND 0x80 = 0
   \<and> (0x00 :: 8 word) AND 0x80 = 0
   \<and> midiStatus Midi_init \<noteq> MidiStatus_Extended
   \<and> length (midiData Midi_init) = unat maxMidiData
   \<and> (\<exists>s1 s2 s3. decode Midi_init 0x93 = Inr (s1, [])
         \<and> decode s1 0x3C = Inr (s2, [])
         \<and> decode s2 0x40 = Inr (s3, [noteOn 3 0x3C 0x40]))
   \<and> (\<exists>s1 s2 s3. decode Midi_init 0x93 = Inr (s1, [])
         \<and> decode s1 0x3C = Inr (s2, [])
         \<and> decode s2 0x00 = Inr (s3, [noteOff 3 0x3C]))"
proof -
  have h1: "(0x90 :: 8 word) \<le> 0x93" and h2: "(0x93 :: 8 word) \<le> 0x9F" by simp_all
  have h3: "(0x3C :: 8 word) AND 0x80 = 0" and h4: "(0x40 :: 8 word) AND 0x80 = 0"
    and h4': "(0x00 :: 8 word) AND 0x80 = 0" by simp_all
  have h5: "midiStatus Midi_init \<noteq> MidiStatus_Extended"
    by (simp add: Midi_init_def MidiStatus_defs)
  have h6: "length (midiData Midi_init) = unat maxMidiData" by (simp add: Midi_init_def)
  have c: "(0x93 :: 8 word) AND 0x0F = 3" by simp
  from C2_note_on_message [OF h1 h2 h3 h4 h5 h6]
  have on: "\<exists>s1 s2 s3. decode Midi_init 0x93 = Inr (s1, [])
         \<and> decode s1 0x3C = Inr (s2, [])
         \<and> decode s2 0x40 = Inr (s3, [noteOn 3 0x3C 0x40])"
    by (simp add: c)
  from C2_note_on_message [OF h1 h2 h3 h4' h5 h6]
  have off: "\<exists>s1 s2 s3. decode Midi_init 0x93 = Inr (s1, [])
         \<and> decode s1 0x3C = Inr (s2, [])
         \<and> decode s2 0x00 = Inr (s3, [noteOff 3 0x3C])"
    by (simp add: c)
  from h1 h2 h3 h4 h4' h5 h6 on off show ?thesis by blast
qed

text \<open>
  Without the condition on the status the claim fails. A status byte \<open>0xFn\<close>, here the
  real-time byte F8, sets the status to Extended; the Note-On status byte 90 that follows
  ends that message with a \<open>sysex\<close> call and is not taken as the start of a message, and
  the data bytes 3C 40 are stored without any call: \<open>noteOn\<close> is never called.
\<close>

theorem C2_note_on_counterexample:
  "decodeAll Midi_init [0xF8]
     = Inr (\<lparr>midiStatus = MidiStatus_Extended, midiChannel = 8, midiDataRemaining = 32,
        midiDataIndex = 0, midiData = replicate 32 0\<rparr>, [])
   \<and> (0x90 :: 8 word) \<le> 0x90 \<and> (0x90 :: 8 word) \<le> 0x9F \<and> (0x40 :: 8 word) \<noteq> 0
   \<and> (0x3C :: 8 word) AND 0x80 = 0 \<and> (0x40 :: 8 word) AND 0x80 = 0
   \<and> decode \<lparr>midiStatus = MidiStatus_Extended, midiChannel = 8, midiDataRemaining = 32,
        midiDataIndex = 0, midiData = replicate 32 0\<rparr> 0x90
       = Inr (\<lparr>midiStatus = MidiStatus_Unknown, midiChannel = 8, midiDataRemaining = 32,
        midiDataIndex = 0, midiData = replicate 32 0\<rparr>,
              [sysex 0 (replicate 32 0)])
   \<and> decode \<lparr>midiStatus = MidiStatus_Unknown, midiChannel = 8, midiDataRemaining = 32,
        midiDataIndex = 0, midiData = replicate 32 0\<rparr> 0x3C
       = Inr (\<lparr>midiStatus = MidiStatus_Unknown, midiChannel = 8, midiDataRemaining = 31,
        midiDataIndex = 1, midiData = 0x3C # replicate 31 0\<rparr>, [])
   \<and> decode \<lparr>midiStatus = MidiStatus_Unknown, midiChannel = 8, midiDataRemaining = 31,
        midiDataIndex = 1, midiData = 0x3C # replicate 31 0\<rparr> 0x40
       = Inr (\<lparr>midiStatus = MidiStatus_Unknown, midiChannel = 8, midiDataRemaining = 30,
        midiDataIndex = 2, midiData = 0x3C # 0x40 # replicate 30 0\<rparr>, [])
   \<and> decodeAll Midi_init [0xF8, 0x90, 0x3C, 0x40]
       = Inr (\<lparr>midiStatus = MidiStatus_Unknown, midiChannel = 8, midiDataRemaining = 30,
        midiDataIndex = 2, midiData = 0x3C # 0x40 # replicate 30 0\<rparr>,
              [sysex 0 (replicate 32 0)])"
  by code_simp

text \<open>
  Claim C3, amended: the message is decoded from a state whose status is not Extended.
  Let \<open>sb\<close> be a pitch-bend status byte \<open>0xEn\<close> and \<open>lsb\<close>, \<open>msb\<close> two data
  bytes, decoded in this order from a state whose status is not Extended.
  The status byte and the first data byte call no handler; the second data byte makes
  exactly one call, \<open>pitchBend(n, v)\<close>, where \<open>v\<close> read as a signed 16-bit number is
  \<open>((msb << 7) | lsb) - 0x2000\<close> and lies between -8192 and 8191.
\<close>

theorem C3_pitch_bend_message:
  assumes sb: "0xE0 \<le> sb" "sb \<le> 0xEF"
    and d0: "lsb AND 0x80 = 0" and d1: "msb AND 0x80 = 0"
    and ne: "midiStatus s \<noteq> MidiStatus_Extended"
    and buf: "length (midiData s) = unat maxMidiData"
  shows "(\<exists>s1 s2 s3 v.
           decode s sb = Inr (s1, [])
         \<and> decode s1 lsb = Inr (s2, [])
         \<and> decode s2 msb = Inr (s3, [pitchBend (sb AND 0x0F) v])
         \<and> sint v = (push_bit 7 (uint msb) OR uint lsb) - 0x2000
         \<and> - 8192 \<le> sint v \<and> sint v \<le> 8191)
       \<and> unat (sb AND 0x0F) = unat sb - 0xE0"
proof -
  let ?v = "(push_bit 7 (ucast msb) OR ucast lsb) - 0x2000 :: 16 word"
  have val: "sint ?v = (push_bit 7 (uint msb) OR uint lsb) - 0x2000"
    by (rule pitchBend_value)
  have "0 \<le> push_bit 7 (uint msb) OR uint lsb" "push_bit 7 (uint msb) OR uint lsb < 2 ^ 14"
    using pitchBend_range [OF d0 d1] by simp_all
  with val have rng: "- 8192 \<le> sint ?v" "sint ?v \<le> 8191" by simp_all
  have ch: "unat (sb AND 0x0F) = unat sb - 0xE0"
    using status_channel [of "0xE0" sb 14] sb by simp
  from pitchBend_message [OF assms] val rng ch show ?thesis by blast
qed

text \<open>From the initial state, E3 7F 7F calls \<open>pitchBend\<close> on channel 3 with 8191.\<close>

theorem C3_pitch_bend_witness:
  "(0xE0 :: 8 word) \<le> 0xE3 \<and> (0xE3 :: 8 word) \<le> 0xEF
   \<and> (0x7F :: 8 word) AND 0x80 = 0
   \<and> midiStatus Midi_init \<noteq> MidiStatus_Extended
   \<and> length (midiData Midi_init) = unat maxMidiData
   \<and> (\<exists>s1 s2 s3 v. decode Midi_init 0xE3 = Inr (s1, [])
         \<and> decode s1 0x7F = Inr (s2, [])
         \<and> decode s2 0x7F = Inr (s3, [pitchBend 3 v])
         \<and> sint v = 8191)"
proof -
  have h1: "(0xE0 :: 8 word) \<le> 0xE3" and h2: "(0xE3 :: 8 word) \<le> 0xEF" by simp_all
  have h3: "(0x7F :: 8 word) AND 0x80 = 0" by simp
  have h5: "midiStatus Midi_init \<noteq> MidiStatus_Extended"
    by (simp add: Midi_init_def MidiStatus_defs)
  have h6: "length (midiData Midi_init) = unat maxMidiData" by (simp add: Midi_init_def)
  have c: "(0xE3 :: 8 word) AND 0x0F = 3" by simp
  have e: "(push_bit 7 (uint (0x7F :: 8 word)) OR uint (0x7F :: 8 word)) - 0x2000 = 8191"
    by simp
  from C3_pitch_bend_message [OF h1 h2 h3 h3 h5 h6]
  have "\<exists>s1 s2 s3 v. decode Midi_init 0xE3 = Inr (s1, [])
         \<and> decode s1 0x7F = Inr (s2, [])
         \<and> decode s2 0x7F = Inr (s3, [pitchBend 3 v])
         \<and> sint v = 8191"
    unfolding e c by blast
  with h1 h2 h3 h5 h6 show ?thesis by blast
qed

text \<open>
  Without the condition on the status the claim fails: after the status byte F0 the
  pitch-bend status byte E3 ends the Extended message with a \<open>sysex\<close> call, and the data
  bytes 7F 7F are stored without any call: \<open>pitchBend\<close> is never called.
\<close>

theorem C3_pitch_bend_counterexample:
  "decodeAll Midi_init [0xF0]
     = Inr (\<lparr>midiStatus = MidiStatus_Extended, midiChannel = 0, midiDataRemaining = 32,
        midiDataIndex = 0, midiData = replicate 32 0\<rparr>, [])
   \<and> (0xE0 :: 8 word) \<le> 0xE3 \<and> (0xE3 :: 8 word) \<le> 0xEF
   \<and> (0x7F :: 8 word) AND 0x80 = 0 \<and> (0x7F :: 8 word) AND 0x80 = 0
   \<and> decode \<lparr>midiStatus = MidiStatus_Extended, midiChannel = 0, midiDataRemaining = 32,
        midiDataIndex = 0, midiData = replicate 32 0\<rparr> 0xE3
       = Inr (\<lparr>midiStatus = MidiStatus_Unknown, midiChannel = 0, midiDataRemaining = 32,
        midiDataIndex = 0, midiData = replicate 32 0\<rparr>,
              [sysex 0 (replicate 32 0)])
   \<and> decode \<lparr>midiStatus = MidiStatus_Unknown, midiChannel = 0, midiDataRemaining = 32,
        midiDataIndex = 0, midiData = replicate 32 0\<rparr> 0x7F
       = Inr (\<lparr>midiStatus = MidiStatus_Unknown, midiChannel = 0, midiDataRemaining = 31,
        midiDataIndex = 1, midiData = 0x7F # replicate 31 0\<rparr>, [])
   \<and> decode \<lparr>midiStatus = MidiStatus_Unknown, midiChannel = 0, midiDataRemaining = 31,
        midiDataIndex = 1, midiData = 0x7F # replicate 31 0\<rparr> 0x7F
       = Inr (\<lparr>midiStatus = MidiStatus_Unknown, midiChannel = 0, midiDataRemaining = 30,
        midiDataIndex = 2, midiData = 0x7F # 0x7F # replicate 30 0\<rparr>, [])
   \<and> decodeAll Midi_init [0xF0, 0xE3, 0x7F, 0x7F]
       = Inr (\<lparr>midiStatus = MidiStatus_Unknown, midiChannel = 0, midiDataRemaining = 30,
        midiDataIndex = 2, midiData = 0x7F # 0x7F # replicate 30 0\<rparr>,
              [sysex 0 (replicate 32 0)])"
  by code_simp

text \<open>
  Claim C8, amended: the message is decoded from a state whose status is not Extended.
  For a signed value \<open>v\<close> from -8192 to 8191, let
  \<open>lsb = (v + 0x2000) & 0x7F\<close> and \<open>msb = (v + 0x2000) >> 7\<close>. Both are data bytes, and
  decoding a pitch-bend status byte \<open>0xEn\<close>, then \<open>lsb\<close>, then \<open>msb\<close>, from a state
  whose status is not Extended, calls \<open>pitchBend\<close> once, with a value that reads as
  \<open>v\<close>.
\<close>

theorem C8_pitch_bend_round_trip:
  fixes v :: int
  assumes v: "- 8192 \<le> v" "v \<le> 8191"
    and sb: "0xE0 \<le> sb" "sb \<le> 0xEF"
    and ne: "midiStatus s \<noteq> MidiStatus_Extended"
    and buf: "length (midiData s) = unat maxMidiData"
  defines "lsb \<equiv> word_of_int ((v + 0x2000) AND 0x7F) :: 8 word"
    and "msb \<equiv> word_of_int (drop_bit 7 (v + 0x2000)) :: 8 word"
  shows "lsb AND 0x80 = 0 \<and> msb AND 0x80 = 0 \<and>
         (\<exists>s1 s2 s3 w.
             decode s sb = Inr (s1, [])
           \<and> decode s1 lsb = Inr (s2, [])
           \<and> decode s2 msb = Inr (s3, [pitchBend (sb AND 0x0F) w])
           \<and> sint w = v)"
proof -
  let ?u = "v + 0x2000"
  have u: "0 \<le> ?u" "?u < 2 ^ 14" using v by simp_all
  note e = encode_bytes [OF u]
  have d0: "lsb AND 0x80 = 0" unfolding lsb_def by (rule e(3))
  have d1: "msb AND 0x80 = 0" unfolding msb_def by (rule e(4))
  let ?w = "(push_bit 7 (ucast msb) OR ucast lsb) - 0x2000 :: 16 word"
  have "sint ?w = (push_bit 7 (uint msb) OR uint lsb) - 0x2000"
    by (rule pitchBend_value)
  also have "\<dots> = (push_bit 7 (drop_bit 7 ?u) OR (?u AND 0x7F)) - 0x2000"
    unfolding lsb_def msb_def by (simp only: e(1) e(2))
  also have "\<dots> = ?u - 0x2000" by (simp only: recombine_14)
  also have "\<dots> = v" by simp
  finally have val: "sint ?w = v" .
  from pitchBend_message [OF sb d0 d1 ne buf] val d0 d1 show ?thesis by blast
qed

text \<open>
  The value -1 is encoded as the bytes 7F 3F; from the initial state, E0 7F 3F calls
  \<open>pitchBend\<close> with -1.
\<close>

theorem C8_pitch_bend_round_trip_witness:
  "- 8192 \<le> (- 1 :: int) \<and> (- 1 :: int) \<le> 8191
   \<and> (0xE0 :: 8 word) \<le> 0xE0 \<and> (0xE0 :: 8 word) \<le> 0xEF
   \<and> midiStatus Midi_init \<noteq> MidiStatus_Extended
   \<and> length (midiData Midi_init) = unat maxMidiData
   \<and> (word_of_int ((- 1 + 0x2000) AND 0x7F) :: 8 word) = 0x7F
   \<and> (word_of_int (drop_bit 7 (- 1 + 0x2000)) :: 8 word) = 0x3F
   \<and> (\<exists>s1 s2 s3 w. decode Midi_init 0xE0 = Inr (s1, [])
         \<and> decode s1 0x7F = Inr (s2, [])
         \<and> decode s2 0x3F = Inr (s3, [pitchBend 0 w])
         \<and> sint w = - 1)"
proof -
  have h1: "- 8192 \<le> (- 1 :: int)" and h2: "(- 1 :: int) \<le> 8191" by simp_all
  have h3: "(0xE0 :: 8 word) \<le> 0xE0" and h4: "(0xE0 :: 8 word) \<le> 0xEF" by simp_all
  have h5: "midiStatus Midi_init \<noteq> MidiStatus_Extended"
    by (simp add: Midi_init_def MidiStatus_defs)
  have h6: "length (midiData Midi_init) = unat maxMidiData" by (simp add: Midi_init_def)
  have l: "(word_of_int ((- 1 + 0x2000) AND 0x7F) :: 8 word) = 0x7F" by simp
  have m: "(word_of_int (drop_bit 7 (- 1 + 0x2000)) :: 8 word) = 0x3F" by simp
  have c: "(0xE0 :: 8 word) AND 0x0F = 0" by simp
  from C8_pitch_bend_round_trip [OF h1 h2 h3 h4 h5 h6]
  have "\<exists>s1 s2 s3 w. decode Midi_init 0xE0 = Inr (s1, [])
         \<and> decode s1 0x7F = Inr (s2, [])
         \<and> decode s2 0x3F = Inr (s3, [pitchBend 0 w])
         \<and> sint w = - 1"
    unfolding l m c by blast
  with h1 h2 h3 h4 h5 h6 l m show ?thesis by blast
qed

text \<open>
  Without the condition on the status the claim fails: the value -1 is encoded as 7F 3F,
  and after the real-time byte FE the bytes E0 7F 3F make one \<open>sysex\<close> call and no
  \<open>pitchBend\<close> call.
\<close>

theorem C8_pitch_bend_round_trip_counterexample:
  "decodeAll Midi_init [0xFE]
     = Inr (\<lparr>midiStatus = MidiStatus_Extended, midiChannel = 14, midiDataRemaining = 32,
        midiDataIndex = 0, midiData = replicate 32 0\<rparr>, [])
   \<and> (word_of_int ((- 1 + 0x2000) AND 0x7F) :: 8 word) = 0x7F
   \<and> (word_of_int (drop_bit 7 (- 1 + 0x2000)) :: 8 word) = 0x3F
   \<and> (0xE0 :: 8 word) \<le> 0xE0 \<and> (0xE0 :: 8 word) \<le> 0xEF
   \<and> (0x7F :: 8 word) AND 0x80 = 0 \<and> (0x3F :: 8 word) AND 0x80 = 0
   \<and> decode \<lparr>midiStatus = MidiStatus_Extended, midiChannel = 14, midiDataRemaining = 32,
        midiDataIndex = 0, midiData = replicate 32 0\<rparr> 0xE0
       = Inr (\<lparr>midiStatus = MidiStatus_Unknown, midiChannel = 14, midiDataRemaining = 32,
        midiDataIndex = 0, midiData = replicate 32 0\<rparr>,
              [sysex 0 (replicate 32 0)])
   \<and> decode \<lparr>midiStatus = MidiStatus_Unknown, midiChannel = 14, midiDataRemaining = 32,
        midiDataIndex = 0, midiData = replicate 32 0\<rparr> 0x7F
       = Inr (\<lparr>midiStatus = MidiStatus_Unknown, midiChannel = 14, midiDataRemaining = 31,
        midiDataIndex = 1, midiData = 0x7F # replicate 31 0\<rparr>, [])
   \<and> decode \<lparr>midiStatus = MidiStatus_Unknown, midiChannel = 14, midiDataRemaining = 31,
        midiDataIndex = 1, midiData = 0x7F # replicate 31 0\<rparr> 0x3F
       = Inr (\<lparr>midiStatus = MidiStatus_Unknown, midiChannel = 14, midiDataRemaining = 30,
        midiDataIndex = 2, midiData = 0x7F # 0x3F # replicate 30 0\<rparr>, [])
   \<and> decodeAll Midi_init [0xFE, 0xE0, 0x7F, 0x3F]
       = Inr (\<lparr>midiStatus = MidiStatus_Unknown, midiChannel = 14, midiDataRemaining = 30,
        midiDataIndex = 2, midiData = 0x7F # 0x3F # replicate 30 0\<rparr>,
              [sysex 0 (replicate 32 0)])"
  by code_simp

subsection \<open>The write index stays inside the buffer\<close>

text \<open>
  Claim C5. Decoding any sequence of bytes from the initial state never faults, so every
  write into \<open>midiData\<close> made on the way was at an index below the buffer size; the
  state reached has a buffer of 32 bytes and a write index of at most 32; and the next
  byte, whatever it is, is decoded without a write outside the buffer: when it is a data
  byte that will be stored, the write index is below 32. This covers system-exclusive
  data of any length: Extended expects 32 data bytes, and after those the remaining
  count is 0 and further data bytes are dropped.
\<close>

theorem C5_write_index_within_buffer:
  "\<exists>s calls. decodeAll Midi_init bs = Inr (s, calls)
      \<and> length (midiData s) = unat maxMidiData \<and> unat maxMidiData = 32
      \<and> unat (midiDataIndex s) \<le> unat maxMidiData
      \<and> (\<forall>b. decode s b \<noteq> Inl BufferIndexOutOfRange)
      \<and> (\<forall>b :: 8 word. b AND 0x80 = 0 \<and> midiDataRemaining s \<noteq> 0
              \<longrightarrow> unat (midiDataIndex s) < unat maxMidiData)"
proof -
  from bufferInv_decodeAll [OF bufferInv_init, of bs]
  obtain s calls where r: "decodeAll Midi_init bs = Inr (s, calls)" and i: "bufferInv s"
    by blast
  have nf: "decode s b \<noteq> Inl BufferIndexOutOfRange" for b
    using bufferInv_decode [OF i, of b] by auto
  have w: "unat (midiDataIndex s) < unat maxMidiData" if "midiDataRemaining s \<noteq> 0"
    using bufferInv_write(2) [OF i that] .
  from i have "length (midiData s) = unat maxMidiData" "unat (midiDataIndex s) \<le> unat maxMidiData"
    by (simp_all add: bufferInv_def)
  moreover have "unat maxMidiData = 32" by (simp add: maxMidiData_def)
  ultimately show ?thesis using r nf w by blast
qed

text \<open>
  After F0 01 02 a data byte is stored at index 2. After F0 and forty data bytes the
  write index is 32, the remaining count is 0, and the buffer holds the first 32 of them.
\<close>

theorem C5_write_index_witness:
  "decodeAll Midi_init [0xF0, 0x01, 0x02]
     = Inr (\<lparr>midiStatus = MidiStatus_Extended, midiChannel = 0, midiDataRemaining = 30,
             midiDataIndex = 2, midiData = 1 # 2 # replicate 30 0\<rparr>, [])
   \<and> (0x05 :: 8 word) AND 0x80 = 0
   \<and> midiDataRemaining \<lparr>midiStatus = MidiStatus_Extended, midiChannel = 0,
         midiDataRemaining = 30, midiDataIndex = 2, midiData = 1 # 2 # replicate 30 0\<rparr> \<noteq> 0
   \<and> unat (midiDataIndex \<lparr>midiStatus = MidiStatus_Extended, midiChannel = 0,
         midiDataRemaining = 30, midiDataIndex = 2, midiData = 1 # 2 # replicate 30 0\<rparr>)
         < unat maxMidiData
   \<and> decode \<lparr>midiStatus = MidiStatus_Extended, midiChannel = 0, midiDataRemaining = 30,
         midiDataIndex = 2, midiData = 1 # 2 # replicate 30 0\<rparr> 0x05
         \<noteq> Inl BufferIndexOutOfRange
   \<and> decodeAll Midi_init (0xF0 # replicate 40 0x01)
     = Inr (\<lparr>midiStatus = MidiStatus_Extended, midiChannel = 0, midiDataRemaining = 0,
             midiDataIndex = 32, midiData = replicate 32 1\<rparr>, [])"
proof -
  let ?s = "\<lparr>midiStatus = MidiStatus_Extended, midiChannel = 0, midiDataRemaining = 30,
             midiDataIndex = 2, midiData = 1 # 2 # replicate 30 0\<rparr>"
  have r: "decodeAll Midi_init [0xF0, 0x01, 0x02] = Inr (?s, [])" by code_simp
  have h1: "(0x05 :: 8 word) AND 0x80 = 0" by simp
  have h2: "midiDataRemaining ?s \<noteq> 0" by simp
  have long: "decodeAll Midi_init (0xF0 # replicate 40 0x01)
     = Inr (\<lparr>midiStatus = MidiStatus_Extended, midiChannel = 0, midiDataRemaining = 0,
             midiDataIndex = 32, midiData = replicate 32 1\<rparr>, [])"
    by code_simp
  from C5_write_index_within_buffer [of "[0xF0, 0x01, 0x02]"] r
  have nf: "\<forall>b. decode ?s b \<noteq> Inl BufferIndexOutOfRange"
    and w: "\<forall>b :: 8 word. b AND 0x80 = 0 \<and> midiDataRemaining ?s \<noteq> 0
              \<longrightarrow> unat (midiDataIndex ?s) < unat maxMidiData"
    by auto
  from w h1 h2 have "unat (midiDataIndex ?s) < unat maxMidiData" by blast
  with r h1 h2 nf long show ?thesis by blast
qed

subsection \<open>A status byte in the middle of a message\<close>

text \<open>
  Claim C10. In a state whose status is one of the seven channel-message kinds (so not
  Extended) and whose remaining count is not 0, decoding a byte with the top bit set
  calls no handler and sets the decoder up for the new message: status, channel and
  remaining count come from the new byte and the write index is 0. The data bytes of the
  abandoned message are still in the buffer but are never dispatched: whatever bytes
  follow, the calls made, with the bytes each call is given, are the same as if the
  buffer had held any other contents at this point.
\<close>

theorem C10_status_byte_abandons_partial_message:
  assumes "unat (midiStatus s) < 7" and "midiDataRemaining s \<noteq> 0"
    and "b AND 0x80 \<noteq> 0" and "length (midiData s) = unat maxMidiData"
    and "length buf = unat maxMidiData"
  shows "\<exists>s'. decode s b = Inr (s', [])
           \<and> s' = s\<lparr>midiStatus := drop_bit 4 b - 8,
                      midiDataRemaining := midiStatusToDataLength ! unat (drop_bit 4 b - 8),
                      midiDataIndex := 0,
                      midiChannel := b AND 0x0F\<rparr>
           \<and> (\<exists>t1 c1 t2 c2.
                  decodeAll s' bs = Inr (t1, c1)
                \<and> decodeAll (s'\<lparr>midiData := buf\<rparr>) bs = Inr (t2, c2)
                \<and> map dispatched c1 = map dispatched c2)"
proof -
  let ?st = "drop_bit 4 b - 8"
  let ?s' = "s\<lparr>midiStatus := ?st, midiDataRemaining := midiStatusToDataLength ! unat ?st,
                midiDataIndex := 0, midiChannel := b AND 0x0F\<rparr>"
  have ne: "midiStatus s \<noteq> MidiStatus_Extended"
    using assms(1) by (auto simp add: MidiStatus_Extended_def)
  have d: "decode s b = Inr (?s', [])"
    using assms(3) ne by (rule decode_status_byte)
  have le: "unat (midiStatusToDataLength ! unat ?st) \<le> unat maxMidiData"
    using status_index_unat(2) [OF assms(3)] by (rule tbl_le_max)
  have inv: "messageInv ?s'"
    using assms(4) le by (simp add: messageInv_def bufferInv_def)
  have sim: "sameUpToIndex ?s' (?s'\<lparr>midiData := buf\<rparr>)"
    using assms(4,5) by (simp add: sameUpToIndex_def)
  from sameUpToIndex_decodeAll [OF sim inv, of bs] d show ?thesis by blast
qed

text \<open>
  After 90 3C the byte C5 abandons the Note-On; the data byte 07 that follows calls
  \<open>programChange(5, 7)\<close>, here and with a buffer of zeros.
\<close>

theorem C10_status_byte_abandons_witness:
  "decodeAll Midi_init [0x90, 0x3C]
     = Inr (\<lparr>midiStatus = MidiStatus_NoteOn, midiChannel = 0, midiDataRemaining = 1,
             midiDataIndex = 1, midiData = 0x3C # replicate 31 0\<rparr>, [])
   \<and> unat MidiStatus_NoteOn < 7 \<and> (1 :: 8 word) \<noteq> 0 \<and> (0xC5 :: 8 word) AND 0x80 \<noteq> 0
   \<and> length (0x3C # replicate 31 (0 :: 8 word)) = unat maxMidiData
   \<and> length (replicate 32 (0 :: 8 word)) = unat maxMidiData
   \<and> decode \<lparr>midiStatus = MidiStatus_NoteOn, midiChannel = 0, midiDataRemaining = 1,
              midiDataIndex = 1, midiData = 0x3C # replicate 31 0\<rparr> 0xC5
       = Inr (\<lparr>midiStatus = MidiStatus_ProgramChange, midiChannel = 5, midiDataRemaining = 1,
               midiDataIndex = 0, midiData = 0x3C # replicate 31 0\<rparr>, [])
   \<and> (\<exists>t1 t2.
         decodeAll \<lparr>midiStatus = MidiStatus_ProgramChange, midiChannel = 5,
                     midiDataRemaining = 1, midiDataIndex = 0,
                     midiData = 0x3C # replicate 31 0\<rparr> [0x07]
           = Inr (t1, [programChange 5 7])
       \<and> decodeAll \<lparr>midiStatus = MidiStatus_ProgramChange, midiChannel = 5,
                     midiDataRemaining = 1, midiDataIndex = 0,
                     midiData = replicate 32 0\<rparr> [0x07]
           = Inr (t2, [programChange 5 7]))"
proof -
  let ?s = "\<lparr>midiStatus = MidiStatus_NoteOn, midiChannel = 0, midiDataRemaining = 1,
             midiDataIndex = 1, midiData = 0x3C # replicate 31 0\<rparr>"
  let ?s' = "\<lparr>midiStatus = MidiStatus_ProgramChange, midiChannel = 5, midiDataRemaining = 1,
             midiDataIndex = 0, midiData = 0x3C # replicate 31 0\<rparr>"
  have r: "decodeAll Midi_init [0x90, 0x3C] = Inr (?s, [])" by code_simp
  have h1: "unat (midiStatus ?s) < 7" by (simp add: MidiStatus_NoteOn_def)
  have h2: "midiDataRemaining ?s \<noteq> 0" by simp
  have h3: "(0xC5 :: 8 word) AND 0x80 \<noteq> 0" by simp
  have h4: "length (midiData ?s) = unat maxMidiData" by (simp add: maxMidiData_def)
  have h5: "length (replicate 32 (0 :: 8 word)) = unat maxMidiData"
    by (simp add: maxMidiData_def)
  have e: "decode ?s 0xC5 = Inr (?s', [])" by code_simp
  have c: "snd (projr (decodeAll ?s' [0x07])) = [programChange 5 7]" by code_simp
  have c': "snd (projr (decodeAll (?s'\<lparr>midiData := replicate 32 0\<rparr>) [0x07]))
              = [programChange 5 7]" by code_simp
  from C10_status_byte_abandons_partial_message [OF h1 h2 h3 h4 h5, of "[0x07]"] e
  obtain t1 c1 t2 c2 where 1: "decodeAll ?s' [0x07] = Inr (t1, c1)"
    and 2: "decodeAll (?s'\<lparr>midiData := replicate 32 0\<rparr>) [0x07] = Inr (t2, c2)"
    by auto
  from 1 c have c1: "c1 = [programChange 5 7]" by simp
  from 2 c' have c2: "c2 = [programChange 5 7]" by simp
  from 1 2 c1 c2 have "\<exists>t1 t2. decodeAll ?s' [0x07] = Inr (t1, [programChange 5 7])
       \<and> decodeAll (?s'\<lparr>midiData := replicate 32 0\<rparr>) [0x07] = Inr (t2, [programChange 5 7])"
    by blast
  with r h1 h2 h3 h4 h5 e show ?thesis by simp
qed

end
